theory Spec2Isabelle
  imports Complex_Main "HOL-Library.Multiset" "HOL-Library.AList"
begin

chapter \<open>The model\<close>

section \<open>Strings and paths (auxiliary.py, os.path)\<close>

text \<open>
  Python strings are modelled as lists of code points below 256 (\<open>char\<close>).
  \<open>str.lower\<close> maps the upper-case letters of that range (A-Z, and the Latin-1
  letters 192-222 except the multiplication sign 215) to the code point 32 above.
\<close>

definition lower_char :: "char \<Rightarrow> char" where
  "lower_char c =
     (let n = (of_char c :: nat)
      in if (65 \<le> n \<and> n \<le> 90) \<or> (192 \<le> n \<and> n \<le> 222 \<and> n \<noteq> 215)
         then char_of (n + 32) else c)"

definition lower :: "string \<Rightarrow> string" where
  "lower s = map lower_char s"

text \<open>\<open>s.replace(old, new)\<close> for a one-character \<open>old\<close>.\<close>

definition replace_char :: "char \<Rightarrow> string \<Rightarrow> string \<Rightarrow> string" where
  "replace_char old new s = concat (map (\<lambda>c. if c = old then new else [c]) s)"

definition normaliseString :: "string \<Rightarrow> string" where
  "normaliseString s =
     replace_char (CHR '')'') '''' (replace_char (CHR ''('') '''' (replace_char (CHR '' '') ''_'' (lower s)))"

text \<open>\<open>os.path.join(a, b)\<close> of posixpath, for two arguments.\<close>

definition os_path_join :: "string \<Rightarrow> string \<Rightarrow> string" where
  "os_path_join a b =
     (if b \<noteq> [] \<and> hd b = CHR ''/'' then b
      else if a = [] \<or> last a = CHR ''/'' then a @ b
      else a @ ''/'' @ b)"

text \<open>\<open>sep.join(parts)\<close>.\<close>

fun str_join :: "string \<Rightarrow> string list \<Rightarrow> string" where
  "str_join sep [] = []"
| "str_join sep [p] = p"
| "str_join sep (p # q # ps) = p @ sep @ str_join sep (q # ps)"

section \<open>The cache-key builder (preprocessedPathFunction)\<close>

definition preprocessed_extension :: string where
  "preprocessed_extension = ''.sparse.pkl.gz''"

text \<open>
  Python truthiness of the optional arguments: \<open>None\<close>, the empty string, the empty
  list and the number zero all count as absent.
\<close>

fun truthy_str :: "string option \<Rightarrow> bool" where
  "truthy_str None = False"
| "truthy_str (Some s) = (s \<noteq> [])"

fun truthy_list :: "'a list option \<Rightarrow> bool" where
  "truthy_list None = False"
| "truthy_list (Some xs) = (xs \<noteq> [])"

fun truthy_num :: "real option \<Rightarrow> bool" where
  "truthy_num None = False"
| "truthy_num (Some x) = (x \<noteq> 0)"

text \<open>
  The arguments of the inner function \<open>preprocessedPath\<close>. The split fraction is a
  float; its \<open>str\<close> form is a function of the interpreter, taken as the parameter
  \<open>str\<close> of \<open>preprocessedPath\<close>.
\<close>

record path_args =
  base_name :: "string option"
  preprocessing_methods :: "string list option"
  feature_selection :: "string option"
  splitting_method :: "string option"
  splitting_fraction :: "real option"

definition no_args :: path_args where
  "no_args = \<lparr>base_name = None, preprocessing_methods = None, feature_selection = None,
     splitting_method = None, splitting_fraction = None\<rparr>"

definition filename_parts :: "(real \<Rightarrow> string) \<Rightarrow> string \<Rightarrow> string \<Rightarrow> path_args \<Rightarrow> string list" where
  "filename_parts str preprocess_directory name a =
     [os_path_join preprocess_directory name]
     @ (if truthy_str (base_name a) then [normaliseString (the (base_name a))] else [])
     @ (if truthy_str (feature_selection a) then [normaliseString (the (feature_selection a))] else [])
     @ (if truthy_list (preprocessing_methods a)
        then map normaliseString (the (preprocessing_methods a)) else [])
     @ (if truthy_str (splitting_method a)
        then [''split'', normaliseString (the (splitting_method a))]
             @ (if truthy_num (splitting_fraction a) then [str (the (splitting_fraction a))] else [])
        else [])"

definition preprocessedPath :: "(real \<Rightarrow> string) \<Rightarrow> string \<Rightarrow> string \<Rightarrow> path_args \<Rightarrow> string" where
  "preprocessedPath str preprocess_directory name a =
     str_join ''-'' (filename_parts str preprocess_directory name a) @ preprocessed_extension"

text \<open>
  Vocabulary for stating properties of the path: \<open>dashed ps\<close> is the text that
  the components \<open>ps\<close> contribute after the base path, each preceded by the
  separator; \<open>dash_led r\<close> says that \<open>r\<close> is empty or begins with the separator.
\<close>

definition dash_led :: "string \<Rightarrow> bool" where
  "dash_led r \<longleftrightarrow> (r = [] \<or> hd r = CHR ''-'')"

definition dashed :: "string list \<Rightarrow> string" where
  "dashed ps = concat (map (\<lambda>p. ''-'' @ p) ps)"

text \<open>
  The text one optional string component contributes to the path (nothing when it is
  \<open>None\<close> or empty), the text of the preprocessing list, and the text of the split
  part, which the source emits only under a truthy splitting method.
\<close>

definition seg :: "string option \<Rightarrow> string" where
  "seg x = (case x of None \<Rightarrow> [] | Some s \<Rightarrow> if s = [] then [] else CHR ''-'' # normaliseString s)"

definition method_segs :: "string list option \<Rightarrow> string" where
  "method_segs x = (case x of None \<Rightarrow> [] | Some ms \<Rightarrow> dashed (map normaliseString ms))"

definition split_segs :: "(real \<Rightarrow> string) \<Rightarrow> string option \<Rightarrow> real option \<Rightarrow> string" where
  "split_segs str m f =
     (case m of None \<Rightarrow> []
      | Some s \<Rightarrow> if s = [] then []
          else ''-split-'' @ normaliseString s
               @ (case f of None \<Rightarrow> [] | Some x \<Rightarrow> if x = 0 then [] else CHR ''-'' # str x))"

text \<open>
  Tag vocabularies on which the path can be read back: the normalised tags are free of
  the separator, normalisation is injective on each vocabulary, feature-selection tags
  and preprocessing tags stay distinguishable, and none of them normalises to the
  literal segment \<open>split\<close>. A \<open>configuration\<close> is a canonical argument record over such
  vocabularies: no suffix, no empty or zero component, and a fraction only together with
  a splitting method.
\<close>

definition tag_vocabulary :: "string set \<Rightarrow> string set \<Rightarrow> string set \<Rightarrow> bool" where
  "tag_vocabulary FS PM SM \<longleftrightarrow>
     inj_on normaliseString FS \<and> inj_on normaliseString PM \<and> inj_on normaliseString SM
     \<and> (\<forall>t \<in> FS \<union> PM \<union> SM. CHR ''-'' \<notin> set (normaliseString t))
     \<and> normaliseString ` FS \<inter> normaliseString ` PM = {}
     \<and> ''split'' \<notin> normaliseString ` (FS \<union> PM)"

definition configuration ::
  "string set \<Rightarrow> string set \<Rightarrow> string set \<Rightarrow> real set \<Rightarrow> path_args \<Rightarrow> bool" where
  "configuration FS PM SM F a \<longleftrightarrow>
     base_name a = None
     \<and> (case feature_selection a of None \<Rightarrow> True | Some t \<Rightarrow> t \<noteq> [] \<and> t \<in> FS)
     \<and> (case preprocessing_methods a of None \<Rightarrow> True | Some ms \<Rightarrow> ms \<noteq> [] \<and> set ms \<subseteq> PM)
     \<and> (case splitting_method a of
          None \<Rightarrow> splitting_fraction a = None
        | Some m \<Rightarrow> m \<noteq> [] \<and> m \<in> SM
            \<and> (case splitting_fraction a of None \<Rightarrow> True | Some f \<Rightarrow> f \<noteq> 0 \<and> f \<in> F))"

definition plain_name :: "string \<Rightarrow> bool" where
  "plain_name n \<longleftrightarrow> CHR ''-'' \<notin> set n \<and> CHR ''/'' \<notin> set n"

definition head_tokens :: "path_args \<Rightarrow> string list" where
  "head_tokens a =
     (case feature_selection a of None \<Rightarrow> [] | Some t \<Rightarrow> [normaliseString t])
     @ (case preprocessing_methods a of None \<Rightarrow> [] | Some ms \<Rightarrow> map normaliseString ms)"

text \<open>The tags that the source itself interprets.\<close>

definition documented_feature_selections :: "string set" where
  "documented_feature_selections = {''remove zeros'', ''low gini indices''}"

definition documented_preprocessing_methods :: "string set" where
  "documented_preprocessing_methods = {''binarise'', ''gini'', ''idf'', ''normalise''}"

definition documented_splitting_methods :: "string set" where
  "documented_splitting_methods = {''random'', ''indices''}"

section \<open>Python values held in a data dictionary\<close>

text \<open>
  A 2-D \<open>numpy.ndarray\<close> of floats of shape \<open>(M, N)\<close>: its \<open>M\<close> rows and the
  column count \<open>N\<close> (kept apart, since \<open>M\<close> may be 0). Floats are modelled as
  reals. An array built by numpy is rectangular (\<open>wf_matrix\<close>).
\<close>

record matrix =
  ncols :: nat
  rows :: "real list list"

definition nrows :: "matrix \<Rightarrow> nat" where
  "nrows m = length (rows m)"

definition wf_matrix :: "matrix \<Rightarrow> bool" where
  "wf_matrix m \<longleftrightarrow> list_all (\<lambda>r. length r = ncols m) (rows m)"

text \<open>
  A \<open>scipy.sparse.csr_matrix\<close>: shape, row pointers, column indices and the stored
  values.
\<close>

record csr =
  csr_nrows :: nat
  csr_ncols :: nat
  indptr :: "nat list"
  indices :: "nat list"
  csr_data :: "real list"

text \<open>
  1-D arrays, by element type. A float in a vector may be non-finite: \<open>None\<close> stands
  for \<open>nan\<close> and the infinities, \<open>Some\<close> for a finite value.
\<close>

datatype vector = IntVec "int list" | FloatVec "real option list" | StrVec "string list"

text \<open>
  The values of a data dictionary: \<open>None\<close>, arrays, a sparse matrix, a numpy integer
  (an element of an integer vector), a \<open>slice(start, stop)\<close> and nested dicts.
\<close>

datatype pykey = KStr string | KInt int

datatype pyval =
    NoneV
  | Ndarray2 matrix
  | Ndarray1 vector
  | CsrMatrix csr
  | NpInt int
  | PySlice "int option" "int option"
  | Dict "(pykey \<times> pyval) list"

text \<open>
  A data dictionary: a \<open>dict\<close> with string keys, as an association list in
  insertion order (keys distinct).
\<close>

type_synonym data_dictionary = "(string \<times> pyval) list"

datatype error =
    FileNotFoundError
  | CacheCorrupt
  | NotAMapping
  | IndexError
  | KeyError
  | ValueError
  | AttributeError
  | TypeError
  | NameError
  | Unsupported
  | AssertionError
  | UnboundLocalError
  | LoaderError

section \<open>scipy's dense/sparse conversion\<close>

text \<open>
  \<open>scipy.sparse.csr_matrix(dense)\<close> keeps the nonzero entries of each row in column
  order; \<open>indptr\<close> holds the running count of stored entries.
\<close>

definition nonzeros_row :: "real list \<Rightarrow> (nat \<times> real) list" where
  "nonzeros_row r = filter (\<lambda>(j, v). v \<noteq> 0) (zip [0..<length r] r)"

fun cumsum :: "nat \<Rightarrow> nat list \<Rightarrow> nat list" where
  "cumsum a [] = [a]"
| "cumsum a (c # cs) = a # cumsum (a + c) cs"

definition csr_matrix :: "matrix \<Rightarrow> csr" where
  "csr_matrix m =
     \<lparr>csr_nrows = nrows m, csr_ncols = ncols m,
      indptr = cumsum 0 (map (\<lambda>r. length (nonzeros_row r)) (rows m)),
      indices = concat (map (\<lambda>r. map fst (nonzeros_row r)) (rows m)),
      csr_data = concat (map (\<lambda>r. map snd (nonzeros_row r)) (rows m))\<rparr>"

text \<open>
  \<open>csr.todense().A\<close>: a zero matrix of the shape, to which every stored entry of
  row \<open>i\<close> (positions \<open>indptr[i]\<close> up to \<open>indptr[i+1]\<close>) is added at its column.
  A \<open>csr\<close> value is taken as scipy builds it, with pointers and column indices in
  range; every \<open>csr\<close> value of the properties below comes from \<open>csr_matrix\<close>.
\<close>

definition todense_row :: "csr \<Rightarrow> nat \<Rightarrow> real list" where
  "todense_row c i =
     foldl (\<lambda>r k. r[indices c ! k := r ! (indices c ! k) + csr_data c ! k])
       (replicate (csr_ncols c) 0) [indptr c ! i ..< indptr c ! (i + 1)]"

definition todense :: "csr \<Rightarrow> matrix" where
  "todense c = \<lparr>ncols = csr_ncols c, rows = map (todense_row c) [0..<csr_nrows c]\<rparr>"

text \<open>One step of \<open>todense_row\<close>, on a pair of column and value.\<close>

definition add_entry :: "real list \<Rightarrow> nat \<times> real \<Rightarrow> real list" where
  "add_entry r e = r[fst e := r ! fst e + snd e]"

section \<open>SparseStore (saveAsSparseData, loadFromSparseData)\<close>

text \<open>The test \<open>sub in s\<close> on strings.\<close>

fun substring_in :: "string \<Rightarrow> string \<Rightarrow> bool" where
  "substring_in sub [] = (sub = [])"
| "substring_in sub (c # cs) = (take (length sub) (c # cs) = sub \<or> substring_in sub cs)"

text \<open>
  Indexing a 1-D array with an integer: negative indices count from the end, an index
  out of range raises.
\<close>

definition py_index :: "'a list \<Rightarrow> int \<Rightarrow> error + 'a" where
  "py_index xs k =
     (let n = int (length xs); j = (if k < 0 then k + n else k)
      in if 0 \<le> j \<and> j < n then Inr (xs ! nat j) else Inl IndexError)"

fun int_items :: "int list \<Rightarrow> int list \<Rightarrow> error + (pykey \<times> pyval) list" where
  "int_items xs [] = Inr []"
| "int_items xs (k # ks) =
     (case py_index xs k of
        Inl e \<Rightarrow> Inl e
      | Inr x \<Rightarrow> (case int_items xs ks of Inl e \<Rightarrow> Inl e | Inr r \<Rightarrow> Inr ((KInt k, NpInt x) # r)))"

text \<open>
  What the inner loop \<open>for key2 in v: ... v[key2] ...\<close> visits: the pairs of
  \<open>key2\<close> and \<open>v[key2]\<close>, or the exception it raises. A dict yields its entries. Any
  other value is iterated and then indexed by its own elements: an empty array yields
  nothing; an integer vector is indexed by its integers; a row of a float matrix, a
  float or a string is no index and cannot be a dict key, and \<open>None\<close>, scalars and
  slices cannot be iterated, which is the error \<open>NotAMapping\<close> (the \<open>IndexError\<close> or
  \<open>TypeError\<close> of the interpreter).
\<close>

fun iter_items :: "pyval \<Rightarrow> error + (pykey \<times> pyval) list" where
  "iter_items (Dict kvs) = Inr kvs"
| "iter_items (Ndarray2 m) = (if rows m = [] then Inr [] else Inl NotAMapping)"
| "iter_items (Ndarray1 (IntVec xs)) = int_items xs xs"
| "iter_items (Ndarray1 (FloatVec xs)) = (if xs = [] then Inr [] else Inl NotAMapping)"
| "iter_items (Ndarray1 (StrVec xs)) = (if xs = [] then Inr [] else Inl NotAMapping)"
| "iter_items (CsrMatrix c) = (if csr_nrows c = 0 then Inr [] else Inl NotAMapping)"
| "iter_items NoneV = Inl NotAMapping"
| "iter_items (NpInt n) = Inl NotAMapping"
| "iter_items (PySlice start stop) = Inl NotAMapping"

text \<open>The two inner functions \<open>converter\<close>.\<close>

definition save_converter :: "pyval \<Rightarrow> pyval" where
  "save_converter data_v = (case data_v of Ndarray2 m \<Rightarrow> CsrMatrix (csr_matrix m) | _ \<Rightarrow> data_v)"

definition load_converter :: "pyval \<Rightarrow> pyval" where
  "load_converter data_v = (case data_v of CsrMatrix c \<Rightarrow> Ndarray2 (todense c) | _ \<Rightarrow> data_v)"

text \<open>
  \<open>new = {}; for k in d: new[k] = f(k, d[k])\<close>, stopping at the first exception, and
  \<open>for k in d: d[k] = f(k, d[k])\<close>, which assigns in place.
\<close>

fun build_each :: "('k \<Rightarrow> 'v \<Rightarrow> error + 'w) \<Rightarrow> ('k \<times> 'v) list \<Rightarrow> ('k \<times> 'w) list \<Rightarrow> error + ('k \<times> 'w) list" where
  "build_each f [] acc = Inr acc"
| "build_each f ((k, v) # rest) acc =
     (case f k v of Inl e \<Rightarrow> Inl e | Inr x \<Rightarrow> build_each f rest (AList.update k x acc))"

fun assign_each :: "('k \<Rightarrow> 'v \<Rightarrow> error + 'v) \<Rightarrow> 'k list \<Rightarrow> ('k \<times> 'v) list \<Rightarrow> error + ('k \<times> 'v) list" where
  "assign_each f [] cur = Inr cur"
| "assign_each f (k # ks) cur =
     (case map_of cur k of
        None \<Rightarrow> Inl KeyError
      | Some v \<Rightarrow> (case f k v of Inl e \<Rightarrow> Inl e | Inr x \<Rightarrow> assign_each f ks (AList.update k x cur)))"

definition save_entry :: "string \<Rightarrow> pyval \<Rightarrow> error + pyval" where
  "save_entry key v =
     (if substring_in ''set'' key
      then (case iter_items v of
              Inl e \<Rightarrow> Inl e
            | Inr kvs \<Rightarrow> map_sum id Dict (build_each (\<lambda>key2 x. Inr (save_converter x)) kvs []))
      else Inr (save_converter v))"

definition load_entry :: "string \<Rightarrow> pyval \<Rightarrow> error + pyval" where
  "load_entry key v =
     (if substring_in ''set'' key
      then (case v of
              Dict kvs \<Rightarrow>
                map_sum id Dict (assign_each (\<lambda>key2 x. Inr (load_converter x)) (map fst kvs) kvs)
            | _ \<Rightarrow> (case iter_items v of Inl e \<Rightarrow> Inl e | Inr kvs \<Rightarrow> Inr v))
      else Inr (load_converter v))"

text \<open>
  The file system: what a path holds is a pickled data dictionary or content that
  \<open>gzip\<close> and \<open>pickle\<close> cannot decode. Directories are not modelled.
\<close>

datatype cache_file = Pickle data_dictionary | Undecodable

type_synonym filesystem = "string \<Rightarrow> cache_file option"

definition isfile :: "filesystem \<Rightarrow> string \<Rightarrow> bool" where
  "isfile fs path = (fs path \<noteq> None)"

definition saveAsSparseData :: "data_dictionary \<Rightarrow> string \<Rightarrow> filesystem \<Rightarrow> error + filesystem" where
  "saveAsSparseData data_dictionary path fs =
     (case build_each save_entry data_dictionary [] of
        Inl e \<Rightarrow> Inl e
      | Inr sparse_data_dictionary \<Rightarrow> Inr (fs(path \<mapsto> Pickle sparse_data_dictionary)))"

definition loadFromSparseData :: "string \<Rightarrow> filesystem \<Rightarrow> error + data_dictionary" where
  "loadFromSparseData path fs =
     (case fs path of
        None \<Rightarrow> Inl FileNotFoundError
      | Some Undecodable \<Rightarrow> Inl CacheCorrupt
      | Some (Pickle data_dictionary) \<Rightarrow>
          assign_each load_entry (map fst data_dictionary) data_dictionary)"

text \<open>
  Bundles that SparseStore is meant for: keys are distinct, no entry is already sparse,
  arrays are rectangular, and each key containing \<open>set\<close> holds a group (a dict with
  distinct keys).
\<close>

definition storable :: "pyval \<Rightarrow> bool" where
  "storable v = (case v of CsrMatrix c \<Rightarrow> False | Ndarray2 m \<Rightarrow> wf_matrix m | _ \<Rightarrow> True)"

definition group_ok :: "pyval \<Rightarrow> bool" where
  "group_ok v =
     (case v of Dict kvs \<Rightarrow> distinct (map fst kvs) \<and> list_all (\<lambda>(key2, x). storable x) kvs
      | _ \<Rightarrow> False)"

definition well_keyed :: "data_dictionary \<Rightarrow> bool" where
  "well_keyed d \<longleftrightarrow>
     distinct (map fst d)
     \<and> list_all (\<lambda>(key, v). if substring_in ''set'' key then group_ok v else storable v) d"

text \<open>What \<open>saveAsSparseData\<close> writes for the entry \<open>v\<close> of a well-keyed bundle under \<open>key\<close>.\<close>

definition stored_form :: "string \<Rightarrow> pyval \<Rightarrow> pyval" where
  "stored_form key v =
     (if substring_in ''set'' key
      then (case v of Dict kvs \<Rightarrow> Dict (map (\<lambda>(key2, x). (key2, save_converter x)) kvs) | _ \<Rightarrow> v)
      else save_converter v)"

text \<open>A small bundle: a 3 by 2 array with zeros, vectors and a group.\<close>

definition example_array :: matrix where
  "example_array = \<lparr>ncols = 2, rows = [[0, 1], [2, 0], [0, 0]]\<rparr>"

definition example_group :: pyval where
  "example_group = Dict [(KStr ''values'', Ndarray2 example_array), (KStr ''labels'', Ndarray1 (IntVec [1, 0, 1]))]"

definition example_bundle :: data_dictionary where
  "example_bundle =
     [(''x'', Ndarray2 example_array),
      (''labels'', Ndarray1 (IntVec [1, 0, 1])),
      (''example names'', Ndarray1 (StrVec [''a'', ''b'', ''c''])),
      (''training set'', example_group)]"

section \<open>The dataset entity (class DataSet)\<close>

text \<open>
  The attributes of a \<open>DataSet\<close> object. \<open>None\<close> is \<open>NoneV\<close> for the array
  attributes and \<open>None\<close> of an option for the numbers. The two attributes that share
  their name with an argument of \<open>preprocessedPath\<close> carry the prefix \<open>ds\<close>.
\<close>

record DataSet =
  name :: string
  title :: string
  values_attr :: pyval
  preprocessed_values :: pyval
  labels :: pyval
  example_names :: pyval
  feature_names :: pyval
  number_of_examples :: "nat option"
  number_of_features :: "nat option"
  ds_feature_selection :: "string option"
  ds_preprocessing_methods :: "string list"
  kind :: string
  split_indices :: pyval
  version :: string
  directory :: string
  preprocess_directory :: string
  original_directory :: string

text \<open>\<open>array.shape\<close>.\<close>

fun vec_length :: "vector \<Rightarrow> nat" where
  "vec_length (IntVec xs) = length xs"
| "vec_length (FloatVec xs) = length xs"
| "vec_length (StrVec xs) = length xs"

fun shape :: "pyval \<Rightarrow> error + nat list" where
  "shape (Ndarray2 m) = Inr [nrows m, ncols m]"
| "shape (Ndarray1 v) = Inr [vec_length v]"
| "shape (CsrMatrix c) = Inr [csr_nrows c, csr_ncols c]"
| "shape (NpInt n) = Inr []"
| "shape v = Inl AttributeError"

text \<open>\<open>M, N = values.shape\<close> and \<open>names.shape[0]\<close>.\<close>

definition shape2 :: "pyval \<Rightarrow> error + nat \<times> nat" where
  "shape2 v = (case shape v of Inl e \<Rightarrow> Inl e | Inr [M, N] \<Rightarrow> Inr (M, N) | Inr _ \<Rightarrow> Inl ValueError)"

definition shape0 :: "pyval \<Rightarrow> error + nat" where
  "shape0 v = (case shape v of Inl e \<Rightarrow> Inl e | Inr (M # _) \<Rightarrow> Inr M | Inr [] \<Rightarrow> Inl IndexError)"

text \<open>
  \<open>DataSet.update\<close>. An exception leaves the method at once; the object it was
  mutating is then out of reach of the model's caller.
\<close>

definition update ::
  "DataSet \<Rightarrow> pyval \<Rightarrow> pyval \<Rightarrow> pyval \<Rightarrow> pyval \<Rightarrow> pyval \<Rightarrow> error + DataSet" where
  "update self vals preprocessed_vals labs ex_names feat_names =
     (case
        (if vals \<noteq> NoneV then
           (let self = self\<lparr>values_attr := vals\<rparr> in
            case shape2 vals of
              Inl e \<Rightarrow> Inl e
            | Inr (M_values, N_values) \<Rightarrow>
               (case
                  (if ex_names \<noteq> NoneV then
                     (let self = self\<lparr>example_names := ex_names\<rparr> in
                      case shape0 ex_names of
                        Inl e \<Rightarrow> Inl e
                      | Inr M_examples \<Rightarrow>
                          if M_values = M_examples then Inr self else Inl AssertionError)
                   else Inr self) of
                  Inl e \<Rightarrow> Inl e
                | Inr self \<Rightarrow>
                   (case
                      (if feat_names \<noteq> NoneV then
                         (let self = self\<lparr>feature_names := feat_names\<rparr> in
                          case shape0 feat_names of
                            Inl e \<Rightarrow> Inl e
                          | Inr N_features \<Rightarrow>
                              if N_values = N_features then Inr self else Inl AssertionError)
                       else Inr self) of
                      Inl e \<Rightarrow> Inl e
                    | Inr self \<Rightarrow>
                        Inr (self\<lparr>number_of_examples := Some M_values,
                                   number_of_features := Some N_values\<rparr>))))
         else if ex_names \<noteq> NoneV \<and> feat_names \<noteq> NoneV
              then Inr (self\<lparr>example_names := ex_names, feature_names := feat_names\<rparr>)
              else Inr self) of
        Inl e \<Rightarrow> Inl e
      | Inr self \<Rightarrow>
          (let self = (if labs \<noteq> NoneV then self\<lparr>labels := labs\<rparr> else self);
               self = (if preprocessed_vals \<noteq> NoneV
                       then self\<lparr>preprocessed_values := preprocessed_vals\<rparr> else self)
           in Inr self))"

text \<open>\<open>d[key]\<close> on a data dictionary.\<close>

definition getitem :: "data_dictionary \<Rightarrow> string \<Rightarrow> error + pyval" where
  "getitem d key = (case map_of d key of None \<Rightarrow> Inl KeyError | Some v \<Rightarrow> Inr v)"

text \<open>
  \<open>DataSet.load\<close>. \<open>downloadDataSet\<close> followed by \<open>loadOriginalDataSet\<close> is the
  raw loader, an external collaborator: the parameter \<open>raw_loader\<close> gives, for a
  title, the data dictionary it returns or the exception it raises. The files it
  downloads lie outside the cache and are not part of the modelled file system.
\<close>

definition load ::
  "(real \<Rightarrow> string) \<Rightarrow> (string \<Rightarrow> error + data_dictionary) \<Rightarrow> DataSet \<Rightarrow> filesystem
     \<Rightarrow> error + DataSet \<times> filesystem" where
  "load str raw_loader self fs =
     (let sparse_path = preprocessedPath str (preprocess_directory self) (name self) no_args in
      case
        (if isfile fs sparse_path
         then (case loadFromSparseData sparse_path fs of
                 Inl e \<Rightarrow> Inl e
               | Inr data_dictionary \<Rightarrow> Inr (data_dictionary, fs))
         else (case raw_loader (title self) of
                 Inl e \<Rightarrow> Inl e
               | Inr data_dictionary \<Rightarrow>
                   (case saveAsSparseData data_dictionary sparse_path fs of
                      Inl e \<Rightarrow> Inl e
                    | Inr fs' \<Rightarrow> Inr (data_dictionary, fs')))) of
        Inl e \<Rightarrow> Inl e
      | Inr (data_dictionary, fs') \<Rightarrow>
         (case getitem data_dictionary ''values'' of Inl e \<Rightarrow> Inl e | Inr vals \<Rightarrow>
          case getitem data_dictionary ''labels'' of Inl e \<Rightarrow> Inl e | Inr labs \<Rightarrow>
          case getitem data_dictionary ''example names'' of Inl e \<Rightarrow> Inl e | Inr ex_names \<Rightarrow>
          case getitem data_dictionary ''feature names'' of Inl e \<Rightarrow> Inl e | Inr feat_names \<Rightarrow>
          case update self vals NoneV labs ex_names feat_names of
            Inl e \<Rightarrow> Inl e
          | Inr self \<Rightarrow>
              Inr (if map_of data_dictionary ''split indices'' \<noteq> None
                   then self\<lparr>split_indices := the (map_of data_dictionary ''split indices'')\<rparr>
                   else self, fs')))"

text \<open>
  A \<open>DataSet\<close> for MNIST before \<open>load\<close> has run, and two loader results
  for it: one with consistent shapes and one whose label vector is too long.
\<close>

definition empty_mnist :: DataSet where
  "empty_mnist =
     \<lparr>name = ''mnist'', title = ''MNIST'', values_attr = NoneV, preprocessed_values = NoneV,
      labels = NoneV, example_names = NoneV, feature_names = NoneV,
      number_of_examples = None, number_of_features = None,
      ds_feature_selection = None, ds_preprocessing_methods = [],
      kind = ''full'', split_indices = NoneV, version = ''original'',
      directory = ''data/mnist'', preprocess_directory = ''data/mnist/preprocessed'',
      original_directory = ''data/mnist/original''\<rparr>"

definition consistent_bundle :: data_dictionary where
  "consistent_bundle =
     [(''values'', Ndarray2 \<lparr>ncols = 2, rows = [[0, 1], [2, 0]]\<rparr>),
      (''labels'', Ndarray1 (IntVec [7, 3])),
      (''example names'', Ndarray1 (StrVec [''image 1'', ''image 2''])),
      (''feature names'', Ndarray1 (StrVec [''pixel 1'', ''pixel 2'']))]"

definition mislabelled_bundle :: data_dictionary where
  "mislabelled_bundle =
     [(''values'', Ndarray2 \<lparr>ncols = 2, rows = [[0, 1], [2, 0]]\<rparr>),
      (''labels'', Ndarray1 (IntVec [7, 3, 5])),
      (''example names'', Ndarray1 (StrVec [''image 1'', ''image 2''])),
      (''feature names'', Ndarray1 (StrVec [''pixel 1'', ''pixel 2'']))]"

section \<open>The splitter (splitDataSet)\<close>

text \<open>\<open>int(x)\<close> on a float truncates towards zero.\<close>

definition py_int :: "real \<Rightarrow> int" where
  "py_int x = (if 0 \<le> x then \<lfloor>x\<rfloor> else \<lceil>x\<rceil>)"

text \<open>
  \<open>xs[start:stop]\<close>: a negative bound counts from the end, and both bounds are
  clamped to the length.
\<close>

definition slice_bound :: "int \<Rightarrow> int \<Rightarrow> int" where
  "slice_bound n i = (if i < 0 then max (i + n) 0 else min i n)"

definition slice_list :: "int option \<Rightarrow> int option \<Rightarrow> 'a list \<Rightarrow> 'a list" where
  "slice_list start stop xs =
     (let n = int (length xs);
          a = (case start of None \<Rightarrow> 0 | Some i \<Rightarrow> slice_bound n i);
          b = (case stop of None \<Rightarrow> n | Some i \<Rightarrow> slice_bound n i)
      in take (nat (b - a)) (drop (nat a) xs))"

text \<open>
  The \<open>random\<close> branch. \<open>numpy.random.permutation(M)\<close> after
  \<open>numpy.random.seed(42)\<close> is a fixed function of \<open>M\<close>, the parameter
  \<open>permutation\<close>. The float product is modelled by the product of reals.
\<close>

definition random_indices :: "(nat \<Rightarrow> nat list) \<Rightarrow> real \<Rightarrow> nat \<Rightarrow> nat list \<times> nat list \<times> nat list" where
  "random_indices permutation fraction M =
     (let M_training_validation = py_int (fraction * real M);
          M_training = py_int (fraction * real_of_int M_training_validation);
          shuffled_indices = permutation M;
          training_indices = slice_list None (Some M_training) shuffled_indices;
          validation_indices = slice_list (Some M_training) (Some M_training_validation) shuffled_indices;
          test_indices = slice_list (Some M_training_validation) None shuffled_indices
      in (training_indices, validation_indices, test_indices))"

text \<open>
  \<open>array[index]\<close> for the arrays and the indices that \<open>splitDataSet\<close> meets: a
  slice or an integer index array, applied to the rows of a matrix or the elements of a
  vector. \<open>None[index]\<close> raises. Other combinations are outside the model
  (\<open>Unsupported\<close>).
\<close>

fun index_all :: "'a list \<Rightarrow> int list \<Rightarrow> error + 'a list" where
  "index_all xs [] = Inr []"
| "index_all xs (i # is) =
     (case py_index xs i of
        Inl e \<Rightarrow> Inl e
      | Inr x \<Rightarrow> (case index_all xs is of Inl e \<Rightarrow> Inl e | Inr r \<Rightarrow> Inr (x # r)))"

definition subscript_list :: "'a list \<Rightarrow> pyval \<Rightarrow> error + 'a list" where
  "subscript_list xs idx =
     (case idx of
        PySlice start stop \<Rightarrow> Inr (slice_list start stop xs)
      | Ndarray1 (IntVec is) \<Rightarrow> index_all xs is
      | _ \<Rightarrow> Inl Unsupported)"

fun subscript :: "pyval \<Rightarrow> pyval \<Rightarrow> error + pyval" where
  "subscript (Ndarray2 m) idx = map_sum id (\<lambda>r. Ndarray2 (m\<lparr>rows := r\<rparr>)) (subscript_list (rows m) idx)"
| "subscript (Ndarray1 (IntVec xs)) idx = map_sum id (\<lambda>r. Ndarray1 (IntVec r)) (subscript_list xs idx)"
| "subscript (Ndarray1 (FloatVec xs)) idx = map_sum id (\<lambda>r. Ndarray1 (FloatVec r)) (subscript_list xs idx)"
| "subscript (Ndarray1 (StrVec xs)) idx = map_sum id (\<lambda>r. Ndarray1 (StrVec r)) (subscript_list xs idx)"
| "subscript NoneV idx = Inl TypeError"
| "subscript v idx = Inl Unsupported"

text \<open>The three index objects, for either method.\<close>

definition index_array :: "nat list \<Rightarrow> pyval" where
  "index_array is = Ndarray1 (IntVec (map int is))"

definition dict_lookup :: "pyval \<Rightarrow> string \<Rightarrow> error + pyval" where
  "dict_lookup d key =
     (case d of
        Dict kvs \<Rightarrow> (case map_of kvs (KStr key) of None \<Rightarrow> Inl KeyError | Some v \<Rightarrow> Inr v)
      | NoneV \<Rightarrow> Inl TypeError
      | _ \<Rightarrow> Inl Unsupported)"

definition split_index_objects ::
  "(nat \<Rightarrow> nat list) \<Rightarrow> data_dictionary \<Rightarrow> string \<Rightarrow> real \<Rightarrow> nat \<Rightarrow> error + pyval \<times> pyval \<times> pyval" where
  "split_index_objects permutation data_dictionary method fraction M =
     (if method = ''random'' then
        (case random_indices permutation fraction M of
           (training_indices, validation_indices, test_indices) \<Rightarrow>
             Inr (index_array training_indices, index_array validation_indices, index_array test_indices))
      else if method = ''indices'' then
        (case getitem data_dictionary ''split indices'' of Inl e \<Rightarrow> Inl e | Inr split_idx \<Rightarrow>
         case dict_lookup split_idx ''training'' of Inl e \<Rightarrow> Inl e | Inr training_indices \<Rightarrow>
         case dict_lookup split_idx ''test'' of Inl e \<Rightarrow> Inl e | Inr test_indices \<Rightarrow>
         case dict_lookup split_idx ''validation'' of
           Inr validation_indices \<Rightarrow> Inr (training_indices, validation_indices, test_indices)
         | Inl e \<Rightarrow>
            (case training_indices of
               PySlice start (Some M_training_validation) \<Rightarrow>
                 (let M_training = py_int (fraction * real_of_int M_training_validation)
                  in Inr (PySlice None (Some M_training),
                          PySlice (Some M_training) (Some M_training_validation), test_indices))
             | PySlice start None \<Rightarrow> Inl TypeError
             | _ \<Rightarrow> Inl AttributeError))
      else Inl UnboundLocalError)"

text \<open>One of the three groups of the result: the same index applied to each container.\<close>

definition subset_of :: "data_dictionary \<Rightarrow> pyval \<Rightarrow> error + (pykey \<times> pyval) list" where
  "subset_of data_dictionary idx =
     (case getitem data_dictionary ''values'' of Inl e \<Rightarrow> Inl e | Inr vals \<Rightarrow>
      case subscript vals idx of Inl e \<Rightarrow> Inl e | Inr vals' \<Rightarrow>
      case getitem data_dictionary ''labels'' of Inl e \<Rightarrow> Inl e | Inr labs \<Rightarrow>
      case subscript labs idx of Inl e \<Rightarrow> Inl e | Inr labs' \<Rightarrow>
      case getitem data_dictionary ''example names'' of Inl e \<Rightarrow> Inl e | Inr names \<Rightarrow>
      case subscript names idx of Inl e \<Rightarrow> Inl e | Inr names' \<Rightarrow>
        Inr [(KStr ''values'', vals'), (KStr ''labels'', labs'), (KStr ''example names'', names')])"

definition preprocessed_subset :: "data_dictionary \<Rightarrow> pyval \<Rightarrow> (pykey \<times> pyval) list \<Rightarrow> error + pyval" where
  "preprocessed_subset data_dictionary idx grp =
     (case getitem data_dictionary ''preprocessed values'' of Inl e \<Rightarrow> Inl e | Inr pvals \<Rightarrow>
      case subscript pvals idx of Inl e \<Rightarrow> Inl e | Inr pvals' \<Rightarrow>
        Inr (Dict (AList.update (KStr ''preprocessed values'') pvals' grp)))"

text \<open>
  \<open>splitDataSet\<close>. The method \<open>default\<close> reads \<open>self\<close>, which the function
  does not have.
\<close>

definition splitDataSet ::
  "(nat \<Rightarrow> nat list) \<Rightarrow> data_dictionary \<Rightarrow> string \<Rightarrow> real \<Rightarrow> error + data_dictionary" where
  "splitDataSet permutation data_dictionary method fraction =
     (if method = ''default'' then Inl NameError else
      case getitem data_dictionary ''values'' of Inl e \<Rightarrow> Inl e | Inr vals \<Rightarrow>
      case shape0 vals of Inl e \<Rightarrow> Inl e | Inr M \<Rightarrow>
      case split_index_objects permutation data_dictionary method fraction M of
        Inl e \<Rightarrow> Inl e
      | Inr (training_indices, validation_indices, test_indices) \<Rightarrow>
         (case subset_of data_dictionary training_indices of Inl e \<Rightarrow> Inl e | Inr training \<Rightarrow>
          case subset_of data_dictionary validation_indices of Inl e \<Rightarrow> Inl e | Inr validation \<Rightarrow>
          case subset_of data_dictionary test_indices of Inl e \<Rightarrow> Inl e | Inr test \<Rightarrow>
            if map_of data_dictionary ''preprocessed values'' \<noteq> None then
              (case preprocessed_subset data_dictionary training_indices training of Inl e \<Rightarrow> Inl e | Inr training' \<Rightarrow>
               case preprocessed_subset data_dictionary validation_indices validation of Inl e \<Rightarrow> Inl e | Inr validation' \<Rightarrow>
               case preprocessed_subset data_dictionary test_indices test of Inl e \<Rightarrow> Inl e | Inr test' \<Rightarrow>
                 Inr [(''training set'', training'), (''validation set'', validation'), (''test set'', test')])
            else Inr [(''training set'', Dict training), (''validation set'', Dict validation),
                      (''test set'', Dict test)]))"

section \<open>The weight engine (computeGiniIndices, computeInverseGlobalFrequencyWeights)\<close>

text \<open>
  \<open>numpy.clip(a, a_min, a_max)\<close> on one element. With an array as a bound, the numpy
  releases of the code's time (before 1.17) compute, as their documentation says,
  \<open>maximum(a_min, minimum(a, a_max))\<close>; so \<open>numpy.clip(data, epsilon, data)\<close> raises
  every entry to at least \<open>epsilon\<close> and has no upper effect. (The later ufunc takes
  the minimum last, under which the same call would return the data unchanged.)
\<close>

definition numpy_clip :: "real \<Rightarrow> real \<Rightarrow> real \<Rightarrow> real" where
  "numpy_clip a a_min a_max = max a_min (min a a_max)"

text \<open>
  A float result that may be non-finite, as in a float vector: a division by zero
  yields \<open>nan\<close> or an infinity, which is \<open>None\<close>.
\<close>

type_synonym np_float = "real option"

definition index_vector_of :: "nat \<Rightarrow> real list" where
  "index_vector_of M = map (\<lambda>k. 2 * real k - real M - 1) [1..<M + 1]"

definition dot :: "real list \<Rightarrow> real list \<Rightarrow> real" where
  "dot xs ys = sum_list (map2 (*) xs ys)"

definition column :: "real list list \<Rightarrow> nat \<Rightarrow> real list" where
  "column rs j = map (\<lambda>r. r ! j) rs"

text \<open>
  One column of \<open>index_vector @ numpy.sort(batch / numpy.sum(batch, axis = 0), axis = 0) / M\<close>:
  the column is divided by its sum, sorted, and combined with the index vector. A zero
  sum, or \<open>M = 0\<close>, makes the result non-finite.
\<close>

definition batch_column :: "real list \<Rightarrow> nat \<Rightarrow> real list \<Rightarrow> np_float" where
  "batch_column index_vector M col =
     (let s = sum_list col
      in if s = 0 \<or> M = 0 then None
         else Some (dot index_vector (sort (map (\<lambda>x. x / s) col)) / real M))"

text \<open>\<open>xs[i:i + n] = ys\<close> for \<open>ys\<close> as long as the slice.\<close>

definition assign_slice :: "'a list \<Rightarrow> nat \<Rightarrow> 'a list \<Rightarrow> 'a list" where
  "assign_slice xs i ys = take i xs @ ys @ drop (i + length ys) xs"

text \<open>The loop \<open>for i in range(0, N, batch_size)\<close>, from \<open>i\<close> on.\<close>

function gini_loop ::
  "real list \<Rightarrow> real list list \<Rightarrow> nat \<Rightarrow> nat \<Rightarrow> nat \<Rightarrow> nat \<Rightarrow> np_float list \<Rightarrow> np_float list" where
  "gini_loop index_vector data_rows M N batch_size i gini_indices =
     (if batch_size = 0 \<or> N \<le> i then gini_indices
      else
        (let batch = map (\<lambda>r. take batch_size (drop i r)) data_rows;
             width = min batch_size (N - i);
             batch_values = map (\<lambda>j. batch_column index_vector M (column batch j)) [0..<width]
         in gini_loop index_vector data_rows M N batch_size (i + batch_size)
              (assign_slice gini_indices i batch_values)))"
  by pat_completeness auto

termination
  by (relation "measure (\<lambda>(index_vector, data_rows, M, N, batch_size, i, gini_indices). N - i)") auto

definition computeGiniIndices :: "matrix \<Rightarrow> real \<Rightarrow> nat \<Rightarrow> error + np_float list" where
  "computeGiniIndices data_m epsilon batch_size =
     (let M = nrows data_m; N = ncols data_m;
          index_vector = index_vector_of M;
          data_rows = map (map (\<lambda>x. numpy_clip x epsilon x)) (rows data_m);
          gini_indices = replicate N (Some 0)
      in if batch_size = 0 then Inl ValueError
         else Inr (gini_loop index_vector data_rows M N batch_size 0 gini_indices))"


text \<open>
  \<open>computeInverseGlobalFrequencyWeights\<close>: per feature the logarithm of \<open>M\<close> over
  one more than the number of positive entries. Without examples this is the
  logarithm of zero, which is not finite.
\<close>

definition computeInverseGlobalFrequencyWeights :: "matrix \<Rightarrow> np_float list" where
  "computeInverseGlobalFrequencyWeights data_m =
     (let M = nrows data_m
      in map (\<lambda>j. let global_frequency = length (filter (\<lambda>x. x > 0) (column (rows data_m) j))
                  in if M = 0 then None else Some (ln (real M / (real global_frequency + 1))))
           [0..<ncols data_m])"

section \<open>The preprocessing pipeline (preprocessValues, applyWeights, loadWeights)\<close>

text \<open>
  \<open>loadWeights\<close>. \<open>preprocessPath\<close> is the path function of the data set or
  \<open>None\<close>. With a path whose file exists the weights come from the cache; otherwise
  they are computed, for the methods \<open>gini\<close> and \<open>idf\<close> only: for any other method
  the local variable \<open>weights\<close> is read before it is bound.
\<close>

definition loadWeights ::
  "matrix \<Rightarrow> string \<Rightarrow> (string \<Rightarrow> string) option \<Rightarrow> filesystem \<Rightarrow> error + pyval \<times> filesystem" where
  "loadWeights data_m method preprocessPath fs =
     (let weights_path = (case preprocessPath of
                            Some path_of \<Rightarrow> Some (path_of (method @ ''-weights''))
                          | None \<Rightarrow> None)
      in case
           (if truthy_str weights_path \<and> isfile fs (the weights_path)
            then (case loadFromSparseData (the weights_path) fs of
                    Inl e \<Rightarrow> Inl e
                  | Inr weights_dictionary \<Rightarrow> Inr (weights_dictionary, fs))
            else
              (case
                 (if method = ''gini'' then computeGiniIndices data_m (1 / 10 ^ 16) 5000
                  else if method = ''idf'' then Inr (computeInverseGlobalFrequencyWeights data_m)
                  else Inl UnboundLocalError) of
                 Inl e \<Rightarrow> Inl e
               | Inr weights \<Rightarrow>
                  (let weights_dictionary = [(''weights'', Ndarray1 (FloatVec weights))]
                   in if truthy_str weights_path
                      then (case saveAsSparseData weights_dictionary (the weights_path) fs of
                              Inl e \<Rightarrow> Inl e
                            | Inr fs' \<Rightarrow> Inr (weights_dictionary, fs'))
                      else Inr (weights_dictionary, fs)))) of
           Inl e \<Rightarrow> Inl e
         | Inr (weights_dictionary, fs') \<Rightarrow>
             (case getitem weights_dictionary ''weights'' of
                Inl e \<Rightarrow> Inl e
              | Inr weights \<Rightarrow> Inr (weights, fs')))"

text \<open>
  \<open>weights * data\<close>, a float vector of length \<open>K\<close> broadcast against the \<open>M\<close> by
  \<open>N\<close> matrix: column \<open>j\<close> is multiplied by weight \<open>j\<close>; a length of one on
  either side is stretched; other lengths do not broadcast. The entries of a matrix
  are finite in this model, so a non-finite weight meeting an entry is outside it, as
  are weights that are not a float vector.
\<close>

definition multiply_weights :: "pyval \<Rightarrow> matrix \<Rightarrow> error + matrix" where
  "multiply_weights weights data_m =
     (case weights of
        Ndarray1 (FloatVec ws) \<Rightarrow>
          (let K = length ws; N = ncols data_m
           in if \<not> (K = N \<or> K = 1 \<or> N = 1) then Inl ValueError
              else if rows data_m \<noteq> [] \<and> None \<in> set ws then Inl Unsupported
              else Inr \<lparr>ncols = max K N,
                        rows = map (\<lambda>r. map (\<lambda>j. the (ws ! (if K = 1 then 0 else j))
                                                  * r ! (if N = 1 then 0 else j))
                                         [0..<max K N])
                                   (rows data_m)\<rparr>)
      | _ \<Rightarrow> Inl Unsupported)"

definition applyWeights ::
  "matrix \<Rightarrow> string \<Rightarrow> (string \<Rightarrow> string) option \<Rightarrow> filesystem \<Rightarrow> error + matrix \<times> filesystem" where
  "applyWeights data_m method preprocessPath fs =
     (case loadWeights data_m method preprocessPath fs of
        Inl e \<Rightarrow> Inl e
      | Inr (weights, fs') \<Rightarrow>
          (case multiply_weights weights data_m of Inl e \<Rightarrow> Inl e | Inr r \<Rightarrow> Inr (r, fs')))"

text \<open>\<open>(x != 0).astype('float')\<close> and \<open>sklearn.preprocessing.normalize(x, norm = 'l2', axis = 1)\<close>,
  which leaves a row of norm zero as it is.\<close>

definition binarise :: "matrix \<Rightarrow> matrix" where
  "binarise x = x\<lparr>rows := map (map (\<lambda>v. if v \<noteq> 0 then 1 else 0)) (rows x)\<rparr>"

definition normalize_l2 :: "matrix \<Rightarrow> matrix" where
  "normalize_l2 x =
     x\<lparr>rows := map (\<lambda>r. let norm = sqrt (sum_list (map (\<lambda>v. v * v) r))
                        in if norm = 0 then r else map (\<lambda>v. v / norm) r) (rows x)\<rparr>"

text \<open>
  The four lambdas that \<open>preprocessValues\<close> collects. The lambda for \<open>gini\<close> and
  \<open>idf\<close> does not hold the method it was made for: it reads the loop variable
  \<open>preprocessing_method\<close> when it is called, and all lambdas are called by
  \<open>reduce\<close> after the loop has ended, when the variable holds the last method of
  the list.
\<close>

datatype preprocess_lambda = Binarise | ApplyWeights | Normalise | Identity

definition preprocess_of :: "string \<Rightarrow> preprocess_lambda" where
  "preprocess_of preprocessing_method =
     (if preprocessing_method = ''binarise'' then Binarise
      else if preprocessing_method \<in> set [''gini'', ''idf''] then ApplyWeights
      else if preprocessing_method = ''normalise'' then Normalise
      else Identity)"

fun call_preprocess ::
  "string \<Rightarrow> (string \<Rightarrow> string) option \<Rightarrow> preprocess_lambda \<Rightarrow> matrix \<Rightarrow> filesystem \<Rightarrow> error + matrix \<times> filesystem" where
  "call_preprocess preprocessing_method preprocessPath Binarise x fs = Inr (binarise x, fs)"
| "call_preprocess preprocessing_method preprocessPath ApplyWeights x fs =
     applyWeights x preprocessing_method preprocessPath fs"
| "call_preprocess preprocessing_method preprocessPath Normalise x fs = Inr (normalize_l2 x, fs)"
| "call_preprocess preprocessing_method preprocessPath Identity x fs = Inr (x, fs)"

text \<open>\<open>reduce(lambda v, p: p(v), preprocesses, values)\<close>.\<close>

fun reduce_preprocesses ::
  "string \<Rightarrow> (string \<Rightarrow> string) option \<Rightarrow> preprocess_lambda list \<Rightarrow> matrix \<Rightarrow> filesystem \<Rightarrow> error + matrix \<times> filesystem" where
  "reduce_preprocesses preprocessing_method preprocessPath [] v fs = Inr (v, fs)"
| "reduce_preprocesses preprocessing_method preprocessPath (p # ps) v fs =
     (case call_preprocess preprocessing_method preprocessPath p v fs of
        Inl e \<Rightarrow> Inl e
      | Inr (v', fs') \<Rightarrow> reduce_preprocesses preprocessing_method preprocessPath ps v' fs')"

definition preprocessValues ::
  "matrix \<Rightarrow> string list \<Rightarrow> (string \<Rightarrow> string) option \<Rightarrow> filesystem \<Rightarrow> error + matrix \<times> filesystem" where
  "preprocessValues vals methods preprocessPath fs =
     (let preprocesses = map preprocess_of methods
      in if methods = [] then Inr (vals, fs)
         else reduce_preprocesses (last methods) preprocessPath preprocesses vals fs)"

text \<open>
  The pipeline as the specification words it: the transforms applied left to right,
  each weighting stage with the weights of its own method.
\<close>

fun transform_named ::
  "(string \<Rightarrow> string) option \<Rightarrow> string \<Rightarrow> matrix \<Rightarrow> filesystem \<Rightarrow> error + matrix \<times> filesystem" where
  "transform_named preprocessPath method x fs =
     (if method = ''binarise'' then Inr (binarise x, fs)
      else if method = ''gini'' \<or> method = ''idf'' then applyWeights x method preprocessPath fs
      else if method = ''normalise'' then Inr (normalize_l2 x, fs)
      else Inr (x, fs))"

fun pipeline_spec ::
  "(string \<Rightarrow> string) option \<Rightarrow> string list \<Rightarrow> matrix \<Rightarrow> filesystem \<Rightarrow> error + matrix \<times> filesystem" where
  "pipeline_spec preprocessPath [] v fs = Inr (v, fs)"
| "pipeline_spec preprocessPath (m # ms) v fs =
     (case transform_named preprocessPath m v fs of
        Inl e \<Rightarrow> Inl e
      | Inr (v', fs') \<Rightarrow> pipeline_spec preprocessPath ms v' fs')"

section \<open>The bag-of-words builder (createBagOfWords)\<close>

text \<open>
  The character classes of the two regular expressions, for code points below 256:
  \<open>\d\<close> is a decimal digit, \<open>\w\<close> a letter, a digit, a numeric character or the
  underscore.
\<close>

definition is_digit :: "char \<Rightarrow> bool" where
  "is_digit c = (let n = (of_char c :: nat) in 48 \<le> n \<and> n \<le> 57)"

definition is_word_char :: "char \<Rightarrow> bool" where
  "is_word_char c =
     (let n = (of_char c :: nat)
      in (48 \<le> n \<and> n \<le> 57) \<or> (65 \<le> n \<and> n \<le> 90) \<or> n = 95 \<or> (97 \<le> n \<and> n \<le> 122)
         \<or> n = 170 \<or> n = 178 \<or> n = 179 \<or> n = 181 \<or> n = 185 \<or> n = 186
         \<or> (188 \<le> n \<and> n \<le> 190) \<or> (192 \<le> n \<and> n \<le> 214) \<or> (216 \<le> n \<and> n \<le> 246)
         \<or> 248 \<le> n)"

text \<open>The class \<open>[\d.,\-\(\)+]\<close> and the class \<open>[\w'\-]\<close>.\<close>

definition is_number_tail :: "char \<Rightarrow> bool" where
  "is_number_tail c = (is_digit c \<or> c \<in> set ''.,-()+'')"

definition is_token_char :: "char \<Rightarrow> bool" where
  "is_token_char c = (is_word_char c \<or> c = CHR 0x27 \<or> c = CHR ''-'')"

text \<open>
  \<open>re.sub(r"\d+[\d.,\-\(\)+]*", " DIGIT ", text)\<close>: every maximal match, a digit
  with the longest run of number characters after it, becomes the placeholder.
\<close>

function sub_digits :: "string \<Rightarrow> string" where
  "sub_digits [] = []"
| "sub_digits (c # cs) =
     (if is_digit c then '' DIGIT '' @ sub_digits (dropWhile is_number_tail cs)
      else c # sub_digits cs)"
  by pat_completeness auto

termination
  by (relation "measure length") (auto simp: length_dropWhile_le less_Suc_eq_le)

text \<open>\<open>re.compile(r"[\w'\-]+").findall(text)\<close>: the maximal runs of token characters.\<close>

function findall_tokens :: "string \<Rightarrow> string list" where
  "findall_tokens [] = []"
| "findall_tokens (c # cs) =
     (if is_token_char c
      then (c # takeWhile is_token_char cs) # findall_tokens (dropWhile is_token_char cs)
      else findall_tokens cs)"
  by pat_completeness auto

termination
  by (relation "measure length") (auto simp: length_dropWhile_le less_Suc_eq_le)

text \<open>
  \<open>findWords\<close>. The stemmer \<open>stemming.porter2.stem\<close> is a library function, the
  parameter \<open>stem\<close>.
\<close>

definition findWords :: "(string \<Rightarrow> string) \<Rightarrow> string \<Rightarrow> string list" where
  "findWords stem text_in =
     (let lower_case_text = lower text_in;
          lower_case_text = sub_digits lower_case_text;
          found = findall_tokens lower_case_text
      in map stem found)"

text \<open>
  The dict \<open>distinct_words_index\<close> built by \<open>enumerate\<close>: a word that stands twice
  in the list keeps its last position.
\<close>

definition word_index :: "string list \<Rightarrow> string \<Rightarrow> nat option" where
  "word_index distinct_words = map_of (rev (zip distinct_words [0..<length distinct_words]))"

text \<open>\<open>for word in words: bag_of_words[i, distinct_words_index[word]] += 1\<close> on row \<open>i\<close>.\<close>

fun fill_row :: "(string \<Rightarrow> nat option) \<Rightarrow> real list \<Rightarrow> string list \<Rightarrow> error + real list" where
  "fill_row index_of row [] = Inr row"
| "fill_row index_of row (w # ws) =
     (case index_of w of
        None \<Rightarrow> Inl KeyError
      | Some j \<Rightarrow> fill_row index_of (row[j := row ! j + 1]) ws)"

fun fill_rows :: "(string \<Rightarrow> nat option) \<Rightarrow> nat \<Rightarrow> string list list \<Rightarrow> error + real list list" where
  "fill_rows index_of N [] = Inr []"
| "fill_rows index_of N (ws # rest) =
     (case fill_row index_of (replicate N 0) ws of
        Inl e \<Rightarrow> Inl e
      | Inr row \<Rightarrow> (case fill_rows index_of N rest of Inl e \<Rightarrow> Inl e | Inr rs \<Rightarrow> Inr (row # rs)))"

text \<open>
  \<open>createBagOfWords\<close>. \<open>list(distinct_words)\<close> lists a \<open>set\<close> of strings in the
  iteration order of the interpreter's hash table, which depends on the string hashes
  of the run and on the insertions made: the parameter \<open>set_order\<close> maps the sequence
  of all inserted words to that listing.
\<close>

definition createBagOfWords ::
  "(string \<Rightarrow> string) \<Rightarrow> (string list \<Rightarrow> string list) \<Rightarrow> string list \<Rightarrow> error + matrix \<times> string list" where
  "createBagOfWords stem set_order documents =
     (let documents_words = map (findWords stem) documents;
          distinct_words = set_order (concat documents_words);
          distinct_words_index = word_index distinct_words
      in case fill_rows distinct_words_index (length distinct_words) documents_words of
           Inl e \<Rightarrow> Inl e
         | Inr bag_rows \<Rightarrow> Inr (\<lparr>ncols = length distinct_words, rows = bag_rows\<rparr>, distinct_words))"

text \<open>A listing of a set of inserted words: each word once.\<close>

definition lists_the_set :: "(string list \<Rightarrow> string list) \<Rightarrow> string list \<Rightarrow> bool" where
  "lists_the_set set_order inserted \<longleftrightarrow>
     distinct (set_order inserted) \<and> set (set_order inserted) = set inserted"

section \<open>The feature selector (selectFeatures)\<close>

text \<open>
  The object \<open>indices\<close>: a boolean mask over the features, or \<open>slice(N)\<close>.
\<close>

datatype column_index = Mask "bool list" | ColumnSlice nat

definition mask_select :: "bool list \<Rightarrow> 'a list \<Rightarrow> 'a list" where
  "mask_select msk xs = map snd (filter fst (zip msk xs))"

text \<open>
  \<open>values[:, indices]\<close> and \<open>feature_names[indices]\<close>. A mask must be as long as
  the axis it selects from.
\<close>

definition select_columns :: "column_index \<Rightarrow> matrix \<Rightarrow> error + matrix" where
  "select_columns idx m =
     (case idx of
        Mask msk \<Rightarrow>
          if length msk \<noteq> ncols m then Inl IndexError
          else Inr \<lparr>ncols = length (filter id msk), rows = map (mask_select msk) (rows m)\<rparr>
      | ColumnSlice n \<Rightarrow> Inr \<lparr>ncols = min n (ncols m), rows = map (take n) (rows m)\<rparr>)"

definition select_vector :: "column_index \<Rightarrow> 'a list \<Rightarrow> error + 'a list" where
  "select_vector idx xs =
     (case idx of
        Mask msk \<Rightarrow> if length msk \<noteq> length xs then Inl IndexError else Inr (mask_select msk xs)
      | ColumnSlice n \<Rightarrow> Inr (take n xs))"

fun select_names :: "column_index \<Rightarrow> pyval \<Rightarrow> error + pyval" where
  "select_names idx (Ndarray1 (IntVec xs)) = map_sum id (\<lambda>r. Ndarray1 (IntVec r)) (select_vector idx xs)"
| "select_names idx (Ndarray1 (FloatVec xs)) = map_sum id (\<lambda>r. Ndarray1 (FloatVec r)) (select_vector idx xs)"
| "select_names idx (Ndarray1 (StrVec xs)) = map_sum id (\<lambda>r. Ndarray1 (StrVec r)) (select_vector idx xs)"
| "select_names idx NoneV = Inl TypeError"
| "select_names idx v = Inl Unsupported"

text \<open>\<open>gini_indices > 0.1\<close>; a comparison with \<open>nan\<close> is false.\<close>

definition above_threshold :: "pyval \<Rightarrow> error + column_index" where
  "above_threshold weights =
     (case weights of
        Ndarray1 (FloatVec ws) \<Rightarrow>
          Inr (Mask (map (\<lambda>w. case w of None \<Rightarrow> False | Some x \<Rightarrow> x > 1 / 10) ws))
      | Ndarray1 (IntVec ws) \<Rightarrow> Inr (Mask (map (\<lambda>w. real_of_int w > 1 / 10) ws))
      | _ \<Rightarrow> Inl Unsupported)"

text \<open>
  \<open>selectFeatures\<close>, called with the dict of the two versions \<open>original\<close> and
  \<open>preprocessed\<close>, in this order.
\<close>

definition selectFeatures ::
  "matrix \<Rightarrow> matrix \<Rightarrow> pyval \<Rightarrow> string option \<Rightarrow> (string \<Rightarrow> string) option \<Rightarrow> filesystem
     \<Rightarrow> error + ((matrix \<times> matrix) \<times> pyval) \<times> filesystem" where
  "selectFeatures original preprocessed feat_names feat_selection preprocessPath fs =
     (let vals = original; N = ncols vals in
      case
        (if feat_selection = Some ''remove zeros''
         then Inr (Mask (map (\<lambda>j. sum_list (column (rows vals) j) \<noteq> 0) [0..<N]), fs)
         else if feat_selection = Some ''low gini indices''
         then (case loadWeights vals ''gini'' preprocessPath fs of
                 Inl e \<Rightarrow> Inl e
               | Inr (gini_indices, fs') \<Rightarrow>
                   (case above_threshold gini_indices of Inl e \<Rightarrow> Inl e | Inr idx \<Rightarrow> Inr (idx, fs')))
         else Inr (ColumnSlice N, fs)) of
        Inl e \<Rightarrow> Inl e
      | Inr (idx, fs') \<Rightarrow>
         (case select_columns idx original of Inl e \<Rightarrow> Inl e | Inr original' \<Rightarrow>
          case select_columns idx preprocessed of Inl e \<Rightarrow> Inl e | Inr preprocessed' \<Rightarrow>
          case select_names idx feat_names of Inl e \<Rightarrow> Inl e | Inr feat_names' \<Rightarrow>
            Inr (((original', preprocessed'), feat_names'), fs')))"

section \<open>The dataset entity: preprocess, split and construction\<close>

text \<open>The data set titles of the registry \<open>data_sets\<close>, in its order.\<close>

definition data_sets :: "string list" where
  "data_sets = [''mouse retina'', ''MNIST'', ''Reuters'', ''20 Newsgroups'']"

definition dataSetTitle :: "string \<Rightarrow> error + string" where
  "dataSetTitle name_in =
     (case filter (\<lambda>data_set. normaliseString data_set = name_in) data_sets of
        [] \<Rightarrow> Inl KeyError
      | titles \<Rightarrow> Inr (last titles))"

text \<open>
  The values of a data set are a dense matrix wherever the pipeline computes on them;
  other values are outside the model there.
\<close>

definition as_matrix :: "pyval \<Rightarrow> error + matrix" where
  "as_matrix v = (case v of Ndarray2 m \<Rightarrow> Inr m | _ \<Rightarrow> Inl Unsupported)"

text \<open>The path function that \<open>preprocessedPathFunction\<close> returns for a data set.\<close>

definition path_function :: "(real \<Rightarrow> string) \<Rightarrow> DataSet \<Rightarrow> path_args \<Rightarrow> string" where
  "path_function str self a = preprocessedPath str (preprocess_directory self) (name self) a"

text \<open>\<open>DataSet.preprocess\<close>.\<close>

definition preprocess ::
  "(real \<Rightarrow> string) \<Rightarrow> DataSet \<Rightarrow> filesystem \<Rightarrow> error + DataSet \<times> filesystem" where
  "preprocess str self fs =
     (if ds_preprocessing_methods self = [] \<and> \<not> truthy_str (ds_feature_selection self)
      then map_sum id (\<lambda>self'. (self', fs)) (update self NoneV (values_attr self) NoneV NoneV NoneV)
      else
       (let sparse_path = path_function str self
              (no_args\<lparr>preprocessing_methods := Some (ds_preprocessing_methods self),
                       feature_selection := ds_feature_selection self\<rparr>);
            preprocessPath = Some (\<lambda>b. path_function str self (no_args\<lparr>base_name := Some b\<rparr>))
        in case
             (if isfile fs sparse_path
              then (case loadFromSparseData sparse_path fs of
                      Inl e \<Rightarrow> Inl e
                    | Inr data_dictionary \<Rightarrow> Inr (data_dictionary, fs))
              else
               (case as_matrix (values_attr self) of Inl e \<Rightarrow> Inl e | Inr vals \<Rightarrow>
                case (if ds_preprocessing_methods self \<noteq> []
                      then preprocessValues vals (ds_preprocessing_methods self) preprocessPath fs
                      else Inr (vals, fs)) of
                  Inl e \<Rightarrow> Inl e
                | Inr (preprocessed_vals, fs1) \<Rightarrow>
                   (case (if truthy_str (ds_feature_selection self)
                          then selectFeatures vals preprocessed_vals (feature_names self)
                                 (ds_feature_selection self) preprocessPath fs1
                          else Inr (((vals, preprocessed_vals), feature_names self), fs1)) of
                      Inl e \<Rightarrow> Inl e
                    | Inr (((vals', preprocessed_vals'), feat_names), fs2) \<Rightarrow>
                       (let data_dictionary =
                              [(''values'', Ndarray2 vals'),
                               (''preprocessed values'', Ndarray2 preprocessed_vals'),
                               (''feature names'', feat_names)]
                        in case saveAsSparseData data_dictionary sparse_path fs2 of
                             Inl e \<Rightarrow> Inl e
                           | Inr fs3 \<Rightarrow> Inr (data_dictionary, fs3))))) of
             Inl e \<Rightarrow> Inl e
           | Inr (data_dictionary, fs') \<Rightarrow>
              (case getitem data_dictionary ''values'' of Inl e \<Rightarrow> Inl e | Inr vals \<Rightarrow>
               case getitem data_dictionary ''preprocessed values'' of Inl e \<Rightarrow> Inl e | Inr pvals \<Rightarrow>
               case getitem data_dictionary ''feature names'' of Inl e \<Rightarrow> Inl e | Inr feat_names \<Rightarrow>
                 map_sum id (\<lambda>self'. (self', fs')) (update self vals pvals NoneV NoneV feat_names))))"

definition preprocess_suffix :: string where
  "preprocess_suffix = ''preprocessed''"

definition original_suffix :: string where
  "original_suffix = ''original''"

text \<open>
  \<open>DataSet.__init__\<close>. The attribute \<open>original_feature_selection_indices\<close>, which
  is set to \<open>None\<close> and never read, is left out. A data set of kind \<open>full\<close> without
  values loads itself, and without preprocessed values preprocesses itself.
\<close>

definition DataSet_init ::
  "(real \<Rightarrow> string) \<Rightarrow> (string \<Rightarrow> error + data_dictionary) \<Rightarrow> string
     \<Rightarrow> pyval \<Rightarrow> pyval \<Rightarrow> pyval \<Rightarrow> pyval \<Rightarrow> pyval
     \<Rightarrow> string option \<Rightarrow> string list \<Rightarrow> string \<Rightarrow> string \<Rightarrow> string \<Rightarrow> filesystem
     \<Rightarrow> error + DataSet \<times> filesystem" where
  "DataSet_init str raw_loader name_in vals preprocessed_vals labs ex_names feat_names
       feat_selection methods kind_in version_in directory_in fs =
     (let name' = normaliseString name_in in
      case dataSetTitle name' of Inl e \<Rightarrow> Inl e | Inr title' \<Rightarrow>
      (let self = \<lparr>name = name', title = title', values_attr = NoneV, preprocessed_values = NoneV,
                    labels = NoneV, example_names = NoneV, feature_names = NoneV,
                    number_of_examples = None, number_of_features = None,
                    ds_feature_selection = None, ds_preprocessing_methods = [],
                    kind = [], split_indices = NoneV, version = [],
                    directory = [], preprocess_directory = [], original_directory = []\<rparr>
       in case update self vals preprocessed_vals labs ex_names feat_names of
            Inl e \<Rightarrow> Inl e
          | Inr self \<Rightarrow>
             (let self = self\<lparr>ds_feature_selection := feat_selection,
                               ds_preprocessing_methods := methods,
                               kind := kind_in, split_indices := NoneV, version := version_in,
                               directory := os_path_join directory_in name'\<rparr>;
                  self = self\<lparr>preprocess_directory := os_path_join (directory self) preprocess_suffix,
                               original_directory := os_path_join (directory self) original_suffix\<rparr>
              in case (if values_attr self = NoneV \<and> kind self = ''full''
                       then load str raw_loader self fs else Inr (self, fs)) of
                   Inl e \<Rightarrow> Inl e
                 | Inr (self, fs1) \<Rightarrow>
                     if preprocessed_values self = NoneV \<and> kind self = ''full''
                     then preprocess str self fs1 else Inr (self, fs1))))"

text \<open>The truth value of an object, as \<open>if self.split_indices:\<close> takes it.\<close>

fun truthy_val :: "pyval \<Rightarrow> error + bool" where
  "truthy_val NoneV = Inr False"
| "truthy_val (Dict kvs) = Inr (kvs \<noteq> [])"
| "truthy_val (PySlice start stop) = Inr True"
| "truthy_val (NpInt n) = Inr (n \<noteq> 0)"
| "truthy_val (Ndarray1 (IntVec xs)) =
     (case xs of [] \<Rightarrow> Inr False | [x] \<Rightarrow> Inr (x \<noteq> 0) | _ \<Rightarrow> Inl ValueError)"
| "truthy_val (Ndarray1 (FloatVec xs)) =
     (case xs of [] \<Rightarrow> Inr False | [x] \<Rightarrow> Inr (x \<noteq> Some 0) | _ \<Rightarrow> Inl ValueError)"
| "truthy_val (Ndarray1 (StrVec xs)) =
     (case xs of [] \<Rightarrow> Inr False | [x] \<Rightarrow> Inr (x \<noteq> []) | _ \<Rightarrow> Inl ValueError)"
| "truthy_val (Ndarray2 m) =
     (case concat (rows m) of [] \<Rightarrow> Inr False | [x] \<Rightarrow> Inr (x \<noteq> 0) | _ \<Rightarrow> Inl ValueError)"
| "truthy_val (CsrMatrix c) =
     (if csr_nrows c = 1 \<and> csr_ncols c = 1 then Inr (csr_data c \<noteq> []) else Inl ValueError)"

text \<open>One of the three data sets that \<open>split\<close> constructs from its group of the split dictionary.\<close>

definition subset_DataSet ::
  "(real \<Rightarrow> string) \<Rightarrow> (string \<Rightarrow> error + data_dictionary) \<Rightarrow> DataSet \<Rightarrow> data_dictionary \<Rightarrow> string \<Rightarrow> string
     \<Rightarrow> filesystem \<Rightarrow> error + DataSet \<times> filesystem" where
  "subset_DataSet str raw_loader self split_data_dictionary set_key kind_in fs =
     (case getitem split_data_dictionary set_key of Inl e \<Rightarrow> Inl e | Inr grp \<Rightarrow>
      case dict_lookup grp ''values'' of Inl e \<Rightarrow> Inl e | Inr vals \<Rightarrow>
      case dict_lookup grp ''preprocessed values'' of Inl e \<Rightarrow> Inl e | Inr pvals \<Rightarrow>
      case dict_lookup grp ''labels'' of Inl e \<Rightarrow> Inl e | Inr labs \<Rightarrow>
      case dict_lookup grp ''example names'' of Inl e \<Rightarrow> Inl e | Inr ex_names \<Rightarrow>
        DataSet_init str raw_loader (name self) vals pvals labs ex_names (feature_names self)
          (ds_feature_selection self) (ds_preprocessing_methods self) kind_in ''original'' ''data'' fs)"

text \<open>\<open>DataSet.split\<close>.\<close>

definition split ::
  "(real \<Rightarrow> string) \<Rightarrow> (string \<Rightarrow> error + data_dictionary) \<Rightarrow> (nat \<Rightarrow> nat list) \<Rightarrow> DataSet \<Rightarrow> string \<Rightarrow> real
     \<Rightarrow> filesystem \<Rightarrow> error + (DataSet \<times> DataSet \<times> DataSet) \<times> filesystem" where
  "split str raw_loader permutation self method_in fraction fs =
     (case (if method_in = ''default''
            then (case truthy_val (split_indices self) of
                    Inl e \<Rightarrow> Inl e
                  | Inr b \<Rightarrow> Inr (if b then ''indices'' else ''random''))
            else Inr method_in) of
        Inl e \<Rightarrow> Inl e
      | Inr method \<Rightarrow>
       (let sparse_path = path_function str self
              \<lparr>base_name = None, preprocessing_methods = Some (ds_preprocessing_methods self),
               feature_selection = ds_feature_selection self,
               splitting_method = Some method, splitting_fraction = Some fraction\<rparr>
        in case
             (if isfile fs sparse_path
              then (case loadFromSparseData sparse_path fs of
                      Inl e \<Rightarrow> Inl e
                    | Inr split_data_dictionary \<Rightarrow> Inr (split_data_dictionary, fs))
              else
               (let data_dictionary =
                      [(''values'', values_attr self),
                       (''preprocessed values'', preprocessed_values self),
                       (''labels'', labels self),
                       (''example names'', example_names self),
                       (''split indices'', split_indices self)]
                in case splitDataSet permutation data_dictionary method fraction of
                     Inl e \<Rightarrow> Inl e
                   | Inr split_data_dictionary \<Rightarrow>
                      (case saveAsSparseData split_data_dictionary sparse_path fs of
                         Inl e \<Rightarrow> Inl e
                       | Inr fs' \<Rightarrow> Inr (split_data_dictionary, fs')))) of
             Inl e \<Rightarrow> Inl e
           | Inr (split_data_dictionary, fs') \<Rightarrow>
              (case subset_DataSet str raw_loader self split_data_dictionary ''training set'' ''training'' fs' of
                 Inl e \<Rightarrow> Inl e
               | Inr (training_set, fs1) \<Rightarrow>
               case subset_DataSet str raw_loader self split_data_dictionary ''validation set'' ''validation'' fs1 of
                 Inl e \<Rightarrow> Inl e
               | Inr (validation_set, fs2) \<Rightarrow>
               case subset_DataSet str raw_loader self split_data_dictionary ''test set'' ''test'' fs2 of
                 Inl e \<Rightarrow> Inl e
               | Inr (test_set, fs3) \<Rightarrow> Inr ((training_set, validation_set, test_set), fs3))))"

text \<open>The MNIST object after \<open>load\<close>, configured to binarise its values.\<close>

definition loaded_mnist :: DataSet where
  "loaded_mnist =
     empty_mnist\<lparr>values_attr := Ndarray2 \<lparr>ncols = 2, rows = [[0, 1], [2, 0]]\<rparr>,
                 labels := Ndarray1 (IntVec [7, 3]),
                 example_names := Ndarray1 (StrVec [''image 1'', ''image 2'']),
                 feature_names := Ndarray1 (StrVec [''pixel 1'', ''pixel 2'']),
                 number_of_examples := Some 2, number_of_features := Some 2,
                 ds_preprocessing_methods := [''binarise'']\<rparr>"

chapter \<open>Verified properties\<close>

section \<open>Properties of the cache-key builder\<close>

lemma str_join_Cons: "str_join sep (b # ps) = b @ concat (map (\<lambda>p. sep @ p) ps)"
  by (induction ps arbitrary: b) auto

lemma token_cancel:
  assumes "CHR ''-'' \<notin> set x" "CHR ''-'' \<notin> set y" "dash_led r" "dash_led r'"
    and eq: "x @ r = y @ r'"
  shows "x = y \<and> r = r'"
proof -
  have tw: "takeWhile (\<lambda>c. c \<noteq> CHR ''-'') (u @ s) = u" if "CHR ''-'' \<notin> set u" "dash_led s" for u s
  proof -
    have "takeWhile (\<lambda>c. c \<noteq> CHR ''-'') s = []"
      using that(2) by (cases s) (auto simp: dash_led_def)
    moreover have "\<forall>c\<in>set u. c \<noteq> CHR ''-''" using that(1) by auto
    ultimately show ?thesis by (simp add: takeWhile_append2)
  qed
  have "x = takeWhile (\<lambda>c. c \<noteq> CHR ''-'') (x @ r)" using tw[OF assms(1,3)] by simp
  also have "\<dots> = y" using eq tw[OF assms(2,4)] by simp
  finally have "x = y" .
  with eq show ?thesis by simp
qed

lemma dashed_simps [simp]: "dashed [] = []" "dashed (p # ps) = CHR ''-'' # p @ dashed ps"
  "dashed (ps @ qs) = dashed ps @ dashed qs"
  by (simp_all add: dashed_def)

lemma dash_led_dashed: "dash_led s \<Longrightarrow> dash_led (dashed ps @ s)"
  by (cases ps) (auto simp: dash_led_def)

lemma dashed_inj:
  assumes "\<forall>x\<in>set xs. CHR ''-'' \<notin> set x" "\<forall>y\<in>set ys. CHR ''-'' \<notin> set y"
    and "dashed xs = dashed ys"
  shows "xs = ys"
  using assms
proof (induction xs arbitrary: ys)
  case Nil
  then show ?case by (cases ys) auto
next
  case (Cons x xs)
  show ?case
  proof (cases ys)
    case Nil
    with Cons.prems show ?thesis by simp
  next
    case (Cons y ys')
    have d: "dash_led (dashed xs)" "dash_led (dashed ys')"
      using dash_led_dashed[of "[]"] by (simp_all add: dash_led_def)
    from Cons.prems Cons have "x @ dashed xs = y @ dashed ys'" by simp
    with token_cancel[OF _ _ d] Cons.prems Cons have "x = y \<and> dashed xs = dashed ys'" by auto
    with Cons.IH[of ys'] Cons.prems Cons show ?thesis by auto
  qed
qed

lemma heads_parse:
  assumes "\<forall>x\<in>set xs. CHR ''-'' \<notin> set x \<and> x \<noteq> ''split''"
    "\<forall>y\<in>set ys. CHR ''-'' \<notin> set y \<and> y \<noteq> ''split''"
    "s = [] \<or> (\<exists>r. s = ''-split-'' @ r)" "s' = [] \<or> (\<exists>r. s' = ''-split-'' @ r)"
    and "dashed xs @ s = dashed ys @ s'"
  shows "xs = ys \<and> s = s'"
  using assms
proof (induction xs arbitrary: ys)
  case Nil
  show ?case
  proof (cases ys)
    case Nil
    with Nil.prems show ?thesis by simp
  next
    case (Cons y ys')
    from Nil.prems(3) show ?thesis
    proof
      assume "s = []" with Nil.prems Cons show ?thesis by simp
    next
      assume "\<exists>r. s = ''-split-'' @ r"
      then obtain r where s: "s = ''-split-'' @ r" by blast
      have dl: "dash_led s'" using Nil.prems(4) by (auto simp: dash_led_def)
      have "''split'' @ (CHR ''-'' # r) = y @ (dashed ys' @ s')"
        using Nil.prems(5) s Cons by simp
      from token_cancel[OF _ _ _ dash_led_dashed[OF dl] this] Nil.prems(2) Cons
      show ?thesis by (auto simp: dash_led_def)
    qed
  qed
next
  case (Cons x xs)
  have dl: "dash_led s" "dash_led s'" using Cons.prems(3,4) by (auto simp: dash_led_def)
  show ?case
  proof (cases ys)
    case Nil
    from Cons.prems(4) show ?thesis
    proof
      assume "s' = []" with Cons.prems Nil show ?thesis by simp
    next
      assume "\<exists>r. s' = ''-split-'' @ r"
      then obtain r where s: "s' = ''-split-'' @ r" by blast
      have "x @ (dashed xs @ s) = ''split'' @ (CHR ''-'' # r)"
        using Cons.prems(5) s Nil by simp
      from token_cancel[OF _ _ dash_led_dashed[OF dl(1)] _ this] Cons.prems(1)
      show ?thesis by (auto simp: dash_led_def)
    qed
  next
    case (Cons y ys')
    have "x @ (dashed xs @ s) = y @ (dashed ys' @ s')"
      using Cons.prems(5) Cons by simp
    from token_cancel[OF _ _ dash_led_dashed[OF dl(1)] dash_led_dashed[OF dl(2)] this]
      Cons.prems(1,2) Cons
    have "x = y \<and> dashed xs @ s = dashed ys' @ s'" by auto
    with Cons.IH[of ys'] Cons.prems Cons show ?thesis by auto
  qed
qed

lemma preprocessedPath_segments:
  "preprocessedPath str d n a =
     os_path_join d n @ seg (base_name a) @ seg (feature_selection a)
       @ method_segs (preprocessing_methods a)
       @ split_segs str (splitting_method a) (splitting_fraction a) @ preprocessed_extension"
proof -
  have j: "str_join ''-'' (b # ps) = b @ dashed ps" for b ps
    by (simp add: str_join_Cons dashed_def)
  show ?thesis
    unfolding preprocessedPath_def filename_parts_def
    by (cases "base_name a"; cases "feature_selection a"; cases "preprocessing_methods a";
        cases "splitting_method a"; cases "splitting_fraction a")
       (simp_all add: j seg_def method_segs_def split_segs_def)
qed

lemma os_path_join_plain:
  "plain_name n \<Longrightarrow> os_path_join d n = (if d = [] \<or> last d = CHR ''/'' then d else d @ ''/'') @ n"
  by (cases n) (auto simp: os_path_join_def plain_name_def)

lemma dash_led_dashed0: "dash_led (dashed ps)"
  by (cases ps) (simp_all add: dash_led_def)

lemma dash_led_segs:
  "dash_led (seg x)" "dash_led (method_segs y)" "dash_led (split_segs str m f)"
proof -
  show "dash_led (seg x)" by (auto simp: dash_led_def seg_def split: option.splits)
  show "dash_led (method_segs y)"
    by (cases y) (simp_all add: method_segs_def dash_led_dashed0, simp add: dash_led_def)
  show "dash_led (split_segs str m f)"
    by (auto simp: dash_led_def split_segs_def split: option.splits)
qed

lemma dash_led_append: "dash_led r \<Longrightarrow> dash_led s \<Longrightarrow> dash_led (r @ s)"
  by (cases r) (auto simp: dash_led_def)

lemma configuration_head:
  assumes "configuration FS PM SM F a"
  shows "seg (feature_selection a) @ method_segs (preprocessing_methods a) = dashed (head_tokens a)"
  using assms
  by (auto simp: configuration_def seg_def method_segs_def head_tokens_def split: option.splits)

lemma vocabulary_facts:
  assumes "tag_vocabulary FS PM SM"
  shows "\<And>t. t \<in> FS \<union> PM \<union> SM \<Longrightarrow> CHR ''-'' \<notin> set (normaliseString t)"
    and "\<And>t. t \<in> FS \<union> PM \<Longrightarrow> normaliseString t \<noteq> ''split''"
    and "\<And>t m. t \<in> FS \<Longrightarrow> m \<in> PM \<Longrightarrow> normaliseString t \<noteq> normaliseString m"
    and "\<And>t t'. t \<in> FS \<Longrightarrow> t' \<in> FS \<Longrightarrow> normaliseString t = normaliseString t' \<Longrightarrow> t = t'"
    and "\<And>t t'. t \<in> SM \<Longrightarrow> t' \<in> SM \<Longrightarrow> normaliseString t = normaliseString t' \<Longrightarrow> t = t'"
    and "inj_on normaliseString PM"
proof -
  from assms have h: "inj_on normaliseString FS" "inj_on normaliseString PM" "inj_on normaliseString SM"
    "\<forall>t \<in> FS \<union> PM \<union> SM. CHR ''-'' \<notin> set (normaliseString t)"
    "normaliseString ` FS \<inter> normaliseString ` PM = {}"
    "''split'' \<notin> normaliseString ` (FS \<union> PM)"
    unfolding tag_vocabulary_def by blast+
  show "\<And>t. t \<in> FS \<union> PM \<union> SM \<Longrightarrow> CHR ''-'' \<notin> set (normaliseString t)" using h(4) by blast
  show "\<And>t. t \<in> FS \<union> PM \<Longrightarrow> normaliseString t \<noteq> ''split''" using h(6) by (metis image_eqI)
  show "\<And>t m. t \<in> FS \<Longrightarrow> m \<in> PM \<Longrightarrow> normaliseString t \<noteq> normaliseString m"
    using h(5) by (metis disjoint_iff image_eqI)
  show "\<And>t t'. t \<in> FS \<Longrightarrow> t' \<in> FS \<Longrightarrow> normaliseString t = normaliseString t' \<Longrightarrow> t = t'"
    using h(1) by (simp add: inj_on_def)
  show "\<And>t t'. t \<in> SM \<Longrightarrow> t' \<in> SM \<Longrightarrow> normaliseString t = normaliseString t' \<Longrightarrow> t = t'"
    using h(3) by (simp add: inj_on_def)
  show "inj_on normaliseString PM" by (rule h(2))
qed

lemma head_tokens_ok:
  assumes v: "tag_vocabulary FS PM SM" and a: "configuration FS PM SM F a"
  shows "\<forall>x\<in>set (head_tokens a). CHR ''-'' \<notin> set x \<and> x \<noteq> ''split''"
proof
  fix x assume "x \<in> set (head_tokens a)"
  then obtain t where t: "x = normaliseString t" "t \<in> FS \<union> PM"
    using a by (auto simp: configuration_def head_tokens_def split: option.splits)
  from t(2) have "t \<in> FS \<union> PM \<union> SM" by blast
  with vocabulary_facts(1)[OF v, of t] vocabulary_facts(2)[OF v, of t] t
  show "CHR ''-'' \<notin> set x \<and> x \<noteq> ''split''" by auto
qed

lemma head_tokens_inj:
  assumes v: "tag_vocabulary FS PM SM"
    and a: "configuration FS PM SM F a" and b: "configuration FS PM SM F b"
    and eq: "head_tokens a = head_tokens b"
  shows "feature_selection a = feature_selection b \<and> preprocessing_methods a = preprocessing_methods b"
proof -
  define pa where "pa = (case preprocessing_methods a of None \<Rightarrow> [] | Some ms \<Rightarrow> ms)"
  define pb where "pb = (case preprocessing_methods b of None \<Rightarrow> [] | Some ms \<Rightarrow> ms)"
  have pa: "set pa \<subseteq> PM" and pb: "set pb \<subseteq> PM"
    using a b by (auto simp: pa_def pb_def configuration_def split: option.splits)
  have ha: "head_tokens a = (case feature_selection a of None \<Rightarrow> [] | Some t \<Rightarrow> [normaliseString t])
      @ map normaliseString pa"
    by (simp add: head_tokens_def pa_def split: option.splits)
  have hb: "head_tokens b = (case feature_selection b of None \<Rightarrow> [] | Some t \<Rightarrow> [normaliseString t])
      @ map normaliseString pb"
    by (simp add: head_tokens_def pb_def split: option.splits)
  have restore: "preprocessing_methods a = preprocessing_methods b" if "pa = pb"
    using that a b by (auto simp: pa_def pb_def configuration_def split: option.splits)
  have inj_ms: "pa = pb" if "map normaliseString pa = map normaliseString pb"
  proof -
    have "inj_on normaliseString (set pa \<union> set pb)"
      using vocabulary_facts(6)[OF v] pa pb by (meson Un_least inj_on_subset)
    with that show ?thesis by (simp add: inj_on_map_eq_map)
  qed
  have clash: False if "feature_selection c = Some t" "configuration FS PM SM F c"
      "normaliseString t # map normaliseString ps = map normaliseString qs" "set qs \<subseteq> PM" for c t ps qs
  proof -
    from that(1,2) have "t \<in> FS" by (simp add: configuration_def)
    moreover from that(3) obtain q qs' where "qs = q # qs'" "normaliseString t = normaliseString q"
      by (cases qs) auto
    moreover with that(4) have "q \<in> PM" by simp
    ultimately show False using vocabulary_facts(3)[OF v] by blast
  qed
  show ?thesis
  proof (cases "feature_selection a")
    case None
    show ?thesis
    proof (cases "feature_selection b")
      case N: None
      with None eq ha hb have "pa = pb" using inj_ms by simp
      with None N restore show ?thesis by simp
    next
      case (Some t)
      with None eq ha hb clash[OF Some b, of pb pa] pa show ?thesis by simp
    qed
  next
    case (Some t)
    show ?thesis
    proof (cases "feature_selection b")
      case None
      with Some eq ha hb clash[OF Some a, of pa pb] pb show ?thesis by simp
    next
      case S: (Some t')
      with Some eq ha hb have e: "normaliseString t = normaliseString t'" "pa = pb"
        using inj_ms by simp_all
      from Some S a b have "t \<in> FS" "t' \<in> FS" by (simp_all add: configuration_def)
      with e vocabulary_facts(4)[OF v] have "t = t'" by blast
      with Some S e restore show ?thesis by simp
    qed
  qed
qed

lemma split_segs_form: "split_segs str m f = [] \<or> (\<exists>r. split_segs str m f = ''-split-'' @ r)"
  by (auto simp: split_segs_def split: option.splits)

lemma split_segs_inj:
  assumes v: "tag_vocabulary FS PM SM" and F: "inj_on str F"
    and a: "configuration FS PM SM F a" and b: "configuration FS PM SM F b"
    and eq: "split_segs str (splitting_method a) (splitting_fraction a)
           = split_segs str (splitting_method b) (splitting_fraction b)"
  shows "splitting_method a = splitting_method b \<and> splitting_fraction a = splitting_fraction b"
proof (cases "splitting_method a")
  case None
  with a have fa: "splitting_fraction a = None" by (simp add: configuration_def)
  show ?thesis
  proof (cases "splitting_method b")
    case N: None
    with b have "splitting_fraction b = None" by (simp add: configuration_def)
    with None N fa show ?thesis by simp
  next
    case (Some m)
    with b have "m \<noteq> []" by (simp add: configuration_def)
    with None Some eq show ?thesis by (simp add: split_segs_def)
  qed
next
  case (Some m)
  with a have m: "m \<noteq> []" "m \<in> SM" by (simp_all add: configuration_def)
  show ?thesis
  proof (cases "splitting_method b")
    case None
    with Some m eq show ?thesis by (simp add: split_segs_def)
  next
    case S: (Some m')
    with b have m': "m' \<noteq> []" "m' \<in> SM" by (simp_all add: configuration_def)
    define fa where "fa = (case splitting_fraction a of None \<Rightarrow> [] | Some x \<Rightarrow> CHR ''-'' # str x)"
    define fb where "fb = (case splitting_fraction b of None \<Rightarrow> [] | Some x \<Rightarrow> CHR ''-'' # str x)"
    have sa: "split_segs str (splitting_method a) (splitting_fraction a) = ''-split-'' @ normaliseString m @ fa"
      using Some m a by (auto simp: split_segs_def fa_def configuration_def split: option.splits)
    have sb: "split_segs str (splitting_method b) (splitting_fraction b) = ''-split-'' @ normaliseString m' @ fb"
      using S m' b by (auto simp: split_segs_def fb_def configuration_def split: option.splits)
    have dl: "dash_led fa" "dash_led fb"
      by (auto simp: fa_def fb_def dash_led_def split: option.splits)
    have hy: "CHR ''-'' \<notin> set (normaliseString m)" "CHR ''-'' \<notin> set (normaliseString m')"
      using vocabulary_facts(1)[OF v, of m] vocabulary_facts(1)[OF v, of m'] m m' by auto
    from eq sa sb have "normaliseString m @ fa = normaliseString m' @ fb" by simp
    from token_cancel[OF hy dl this] have e: "normaliseString m = normaliseString m'" "fa = fb" by simp_all
    from e(1) m m' vocabulary_facts(5)[OF v] have "m = m'" by blast
    moreover have "splitting_fraction a = splitting_fraction b"
    proof (cases "splitting_fraction a"; cases "splitting_fraction b")
      fix x y assume xy: "splitting_fraction a = Some x" "splitting_fraction b = Some y"
      with e(2) have "str x = str y" by (simp add: fa_def fb_def)
      moreover from xy a b Some S have "x \<in> F" "y \<in> F" by (simp_all add: configuration_def)
      ultimately have "x = y" using F by (simp add: inj_on_def)
      with xy show ?thesis by simp
    qed (use e(2) in \<open>simp_all add: fa_def fb_def\<close>)
    ultimately show ?thesis using Some S by simp
  qed
qed

lemma cache_key_cancel:
  assumes v: "tag_vocabulary FS PM SM" and F: "inj_on str F"
    and a: "configuration FS PM SM F a" and b: "configuration FS PM SM F b"
    and n: "plain_name n" "plain_name n'"
    and eq: "preprocessedPath str d n a = preprocessedPath str d n' b"
  shows "n = n' \<and> a = b"
proof -
  define ta where "ta = dashed (head_tokens a) @ split_segs str (splitting_method a) (splitting_fraction a)"
  define tb where "tb = dashed (head_tokens b) @ split_segs str (splitting_method b) (splitting_fraction b)"
  define p where "p = (if d = [] \<or> last d = CHR ''/'' then d else d @ ''/'')"
  have pa: "preprocessedPath str d n a = p @ n @ ta @ preprocessed_extension"
    using a configuration_head[OF a] n(1)
    by (simp add: preprocessedPath_segments os_path_join_plain ta_def p_def configuration_def seg_def)
  have pb: "preprocessedPath str d n' b = p @ n' @ tb @ preprocessed_extension"
    using b configuration_head[OF b] n(2)
    by (simp add: preprocessedPath_segments os_path_join_plain tb_def p_def configuration_def seg_def)
  from eq pa pb have e: "n @ ta = n' @ tb" by simp
  have dl: "dash_led ta" "dash_led tb"
    unfolding ta_def tb_def by (rule dash_led_dashed, rule dash_led_segs(3))+
  from n have "CHR ''-'' \<notin> set n" "CHR ''-'' \<notin> set n'" by (simp_all add: plain_name_def)
  from token_cancel[OF this dl e] have nn: "n = n'" and t: "ta = tb" by simp_all
  from t have "dashed (head_tokens a) @ split_segs str (splitting_method a) (splitting_fraction a)
      = dashed (head_tokens b) @ split_segs str (splitting_method b) (splitting_fraction b)"
    by (simp add: ta_def tb_def)
  from heads_parse[OF head_tokens_ok[OF v a] head_tokens_ok[OF v b] split_segs_form split_segs_form this]
  have h: "head_tokens a = head_tokens b"
    and s: "split_segs str (splitting_method a) (splitting_fraction a)
          = split_segs str (splitting_method b) (splitting_fraction b)" by simp_all
  from head_tokens_inj[OF v a b h] split_segs_inj[OF v F a b s] a b
  have "a = b" by (cases a; cases b) (simp add: configuration_def)
  with nn show ?thesis by simp
qed

lemma documented_vocabulary:
  "tag_vocabulary documented_feature_selections documented_preprocessing_methods documented_splitting_methods"
  unfolding tag_vocabulary_def documented_feature_selections_def documented_preprocessing_methods_def
    documented_splitting_methods_def
  by (simp add: normaliseString_def lower_def lower_char_def replace_char_def)

lemmas path_eval = preprocessedPath_def filename_parts_def normaliseString_def lower_def lower_char_def
  replace_char_def os_path_join_def preprocessed_extension_def no_args_def

text \<open>
  Claim C9, as amended. The path is not injective on arbitrary configurations, since
  the components are joined without escaping. It is injective on canonical
  configurations over a separator-free tag vocabulary: two distinct pairs of a plain
  dataset name and such a configuration, under the same directory, get distinct paths,
  provided \<open>str\<close> distinguishes the fractions in use.
\<close>

theorem cache_key_injective:
  assumes "tag_vocabulary FS PM SM" and "inj_on str F"
    and "configuration FS PM SM F a" and "configuration FS PM SM F b"
    and "plain_name n" and "plain_name n'"
    and "(n, a) \<noteq> (n', b)"
  shows "preprocessedPath str d n a \<noteq> preprocessedPath str d n' b"
  using cache_key_cancel[OF assms(1-6)] assms(7) by auto

text \<open>The hypotheses of C9 hold for the documented tags; two fractions give two paths.\<close>

theorem cache_key_injective_witness:
  "tag_vocabulary documented_feature_selections documented_preprocessing_methods documented_splitting_methods
   \<and> inj_on (\<lambda>x::real. if x = 9/10 then ''0.9'' else ''0.5'') {9/10, 1/2}
   \<and> configuration documented_feature_selections documented_preprocessing_methods
        documented_splitting_methods {9/10, 1/2}
        \<lparr>base_name = None, preprocessing_methods = Some [''binarise'', ''normalise''],
         feature_selection = Some ''remove zeros'', splitting_method = Some ''random'',
         splitting_fraction = Some (9/10)\<rparr>
   \<and> configuration documented_feature_selections documented_preprocessing_methods
        documented_splitting_methods {9/10, 1/2}
        \<lparr>base_name = None, preprocessing_methods = Some [''binarise'', ''normalise''],
         feature_selection = Some ''remove zeros'', splitting_method = Some ''random'',
         splitting_fraction = Some (1/2)\<rparr>
   \<and> plain_name ''mnist''
   \<and> preprocessedPath (\<lambda>x::real. if x = 9/10 then ''0.9'' else ''0.5'') ''data/mnist/preprocessed'' ''mnist''
        \<lparr>base_name = None, preprocessing_methods = Some [''binarise'', ''normalise''],
         feature_selection = Some ''remove zeros'', splitting_method = Some ''random'',
         splitting_fraction = Some (9/10)\<rparr>
     \<noteq> preprocessedPath (\<lambda>x::real. if x = 9/10 then ''0.9'' else ''0.5'') ''data/mnist/preprocessed'' ''mnist''
        \<lparr>base_name = None, preprocessing_methods = Some [''binarise'', ''normalise''],
         feature_selection = Some ''remove zeros'', splitting_method = Some ''random'',
         splitting_fraction = Some (1/2)\<rparr>"
proof -
  let ?str = "\<lambda>x::real. if x = 9/10 then ''0.9'' else ''0.5''"
  let ?a = "\<lparr>base_name = None, preprocessing_methods = Some [''binarise'', ''normalise''],
         feature_selection = Some ''remove zeros'', splitting_method = Some ''random'',
         splitting_fraction = Some (9/10::real)\<rparr>"
  let ?b = "\<lparr>base_name = None, preprocessing_methods = Some [''binarise'', ''normalise''],
         feature_selection = Some ''remove zeros'', splitting_method = Some ''random'',
         splitting_fraction = Some (1/2::real)\<rparr>"
  have v: "tag_vocabulary documented_feature_selections documented_preprocessing_methods
      documented_splitting_methods" by (rule documented_vocabulary)
  have F: "inj_on ?str {9/10, 1/2}" by (simp add: inj_on_def)
  have a: "configuration documented_feature_selections documented_preprocessing_methods
        documented_splitting_methods {9/10, 1/2} ?a"
    by (simp add: configuration_def documented_feature_selections_def
        documented_preprocessing_methods_def documented_splitting_methods_def)
  have b: "configuration documented_feature_selections documented_preprocessing_methods
        documented_splitting_methods {9/10, 1/2} ?b"
    by (simp add: configuration_def documented_feature_selections_def
        documented_preprocessing_methods_def documented_splitting_methods_def)
  have n: "plain_name ''mnist''" by (simp add: plain_name_def)
  have d: "(''mnist'', ?a) \<noteq> (''mnist'', ?b)" by simp
  from cache_key_injective[OF v F a b n n d, of "''data/mnist/preprocessed''"] v F a b n
  show ?thesis by blast
qed

text \<open>
  C9 as stated fails: a feature-selection tag and a leading preprocessing tag are
  indistinguishable in the path.
\<close>

theorem cache_key_collision_counterexample:
  "\<lparr>base_name = None, preprocessing_methods = Some [''binarise''],
     feature_selection = Some ''remove zeros'', splitting_method = Some ''random'',
     splitting_fraction = Some (9/10)\<rparr>
   \<noteq> \<lparr>base_name = None, preprocessing_methods = Some [''remove zeros'', ''binarise''],
     feature_selection = None, splitting_method = Some ''random'',
     splitting_fraction = Some (9/10)\<rparr>
   \<and> preprocessedPath (\<lambda>x. ''0.9'') ''data/mnist/preprocessed'' ''mnist''
       \<lparr>base_name = None, preprocessing_methods = Some [''binarise''],
        feature_selection = Some ''remove zeros'', splitting_method = Some ''random'',
        splitting_fraction = Some (9/10)\<rparr>
     = preprocessedPath (\<lambda>x. ''0.9'') ''data/mnist/preprocessed'' ''mnist''
       \<lparr>base_name = None, preprocessing_methods = Some [''remove zeros'', ''binarise''],
        feature_selection = None, splitting_method = Some ''random'',
        splitting_fraction = Some (9/10)\<rparr>"
  by (simp add: path_eval)

text \<open>
  Claim C3, as amended. The path is the base path followed by the separator-prefixed
  normalised components in the fixed order suffix, feature-selection tag, preprocessing
  tags in caller order, then, only under a truthy splitting method, \<open>split\<close>, the
  method tag and the nonzero fraction's string, and finally the extension; an absent
  component contributes no text. Two preprocessing lists that are distinct
  rearrangements of one another give distinct paths when normalisation is injective on
  the tags and no normalised tag contains the separator.
\<close>

theorem preprocessedPath_components:
  assumes "mset ms = mset ms'" and "ms \<noteq> ms'"
    and "inj_on normaliseString (set ms)"
    and "\<forall>t\<in>set ms. CHR ''-'' \<notin> set (normaliseString t)"
  shows "preprocessedPath str d n a =
           os_path_join d n @ seg (base_name a) @ seg (feature_selection a)
           @ method_segs (preprocessing_methods a)
           @ split_segs str (splitting_method a) (splitting_fraction a) @ preprocessed_extension
       \<and> preprocessedPath str d n no_args = os_path_join d n @ preprocessed_extension
       \<and> preprocessedPath str d n (a\<lparr>preprocessing_methods := Some ms\<rparr>)
           \<noteq> preprocessedPath str d n (a\<lparr>preprocessing_methods := Some ms'\<rparr>)"
proof (intro conjI)
  show "preprocessedPath str d n a =
           os_path_join d n @ seg (base_name a) @ seg (feature_selection a)
           @ method_segs (preprocessing_methods a)
           @ split_segs str (splitting_method a) (splitting_fraction a) @ preprocessed_extension"
    by (rule preprocessedPath_segments)
  show "preprocessedPath str d n no_args = os_path_join d n @ preprocessed_extension"
    by (simp add: preprocessedPath_segments no_args_def seg_def method_segs_def split_segs_def)
  show "preprocessedPath str d n (a\<lparr>preprocessing_methods := Some ms\<rparr>)
           \<noteq> preprocessedPath str d n (a\<lparr>preprocessing_methods := Some ms'\<rparr>)"
  proof
    assume "preprocessedPath str d n (a\<lparr>preprocessing_methods := Some ms\<rparr>)
           = preprocessedPath str d n (a\<lparr>preprocessing_methods := Some ms'\<rparr>)"
    then have e: "dashed (map normaliseString ms) = dashed (map normaliseString ms')"
      by (simp add: preprocessedPath_segments method_segs_def)
    from assms(1) have st: "set ms' = set ms" by (metis set_mset_mset)
    have "map normaliseString ms = map normaliseString ms'"
      by (rule dashed_inj[OF _ _ e]) (use assms(4) st in auto)
    moreover have "inj_on normaliseString (set ms \<union> set ms')" using assms(3) st by simp
    ultimately have "ms = ms'" by (simp add: inj_on_map_eq_map)
    with assms(2) show False by simp
  qed
qed

text \<open>The hypotheses of C3 hold for \<open>binarise\<close> and \<open>normalise\<close> in either order.\<close>

theorem preprocessedPath_components_witness:
  "mset [''binarise'', ''normalise''] = mset [''normalise'', ''binarise'']
   \<and> [''binarise'', ''normalise''] \<noteq> [''normalise'', ''binarise'']
   \<and> inj_on normaliseString (set [''binarise'', ''normalise''])
   \<and> CHR ''-'' \<notin> set (normaliseString ''binarise'')
   \<and> CHR ''-'' \<notin> set (normaliseString ''normalise'')
   \<and> preprocessedPath (\<lambda>x. ''0.9'') ''data/mnist/preprocessed'' ''mnist''
        (no_args\<lparr>preprocessing_methods := Some [''binarise'', ''normalise'']\<rparr>)
      = ''data/mnist/preprocessed/mnist-binarise-normalise.sparse.pkl.gz''
   \<and> preprocessedPath (\<lambda>x. ''0.9'') ''data/mnist/preprocessed'' ''mnist''
        (no_args\<lparr>preprocessing_methods := Some [''binarise'', ''normalise'']\<rparr>)
      \<noteq> preprocessedPath (\<lambda>x. ''0.9'') ''data/mnist/preprocessed'' ''mnist''
        (no_args\<lparr>preprocessing_methods := Some [''normalise'', ''binarise'']\<rparr>)"
proof -
  have h1: "mset [''binarise'', ''normalise''] = mset [''normalise'', ''binarise'']" by simp
  have h2: "[''binarise'', ''normalise''] \<noteq> [''normalise'', ''binarise'']" by simp
  have h3: "inj_on normaliseString (set [''binarise'', ''normalise''])"
    by (simp add: normaliseString_def lower_def lower_char_def replace_char_def)
  have h4: "\<forall>t\<in>set [''binarise'', ''normalise'']. CHR ''-'' \<notin> set (normaliseString t)"
    by (simp add: normaliseString_def lower_def lower_char_def replace_char_def)
  have p: "preprocessedPath (\<lambda>x. ''0.9'') ''data/mnist/preprocessed'' ''mnist''
        (no_args\<lparr>preprocessing_methods := Some [''binarise'', ''normalise'']\<rparr>)
      = ''data/mnist/preprocessed/mnist-binarise-normalise.sparse.pkl.gz''"
    by (simp add: path_eval)
  from preprocessedPath_components[OF h1 h2 h3 h4, of "\<lambda>x. ''0.9''" "''data/mnist/preprocessed''"
      "''mnist''" no_args] h1 h2 h3 h4 p
  show ?thesis by simp
qed

text \<open>
  C3 as stated fails: with a tag that contains the separator, two different orders of
  the same preprocessing list give the same path.
\<close>

theorem preprocessedPath_order_counterexample:
  "mset [''gini'', ''gini-gini''] = mset [''gini-gini'', ''gini'']
   \<and> [''gini'', ''gini-gini''] \<noteq> [''gini-gini'', ''gini'']
   \<and> preprocessedPath (\<lambda>x. ''0.9'') ''data/mnist/preprocessed'' ''mnist''
        (no_args\<lparr>preprocessing_methods := Some [''gini'', ''gini-gini'']\<rparr>)
      = preprocessedPath (\<lambda>x. ''0.9'') ''data/mnist/preprocessed'' ''mnist''
        (no_args\<lparr>preprocessing_methods := Some [''gini-gini'', ''gini'']\<rparr>)"
  by (simp add: path_eval)

section \<open>Properties of SparseStore\<close>

lemma rebuild_row:
  "foldl add_entry (pre @ replicate (length r) 0 @ post)
     (filter (\<lambda>(j, v). v \<noteq> 0) (zip [length pre..<length pre + length r] r))
   = pre @ r @ post"
proof (induction r arbitrary: pre)
  case Nil
  then show ?case by simp
next
  case (Cons x xs)
  have z: "zip [length pre..<length pre + length (x # xs)] (x # xs)
      = (length pre, x) # zip [length (pre @ [x])..<length (pre @ [x]) + length xs] xs"
  proof -
    have "[length pre..<length pre + length (x # xs)]
        = length pre # [Suc (length pre)..<Suc (length pre) + length xs]"
      by (subst upt_conv_Cons) simp_all
    then show ?thesis by simp
  qed
  have a: "add_entry (pre @ replicate (length (x # xs)) 0 @ post) (length pre, x)
      = (pre @ [x]) @ replicate (length xs) 0 @ post"
    by (simp add: add_entry_def nth_append list_update_append)
  have b: "x = 0 \<Longrightarrow> pre @ replicate (length (x # xs)) 0 @ post
      = (pre @ [x]) @ replicate (length xs) 0 @ post" by simp
  show ?case
    using Cons.IH[of "pre @ [x]"] a b unfolding z by (cases "x = 0") simp_all
qed

lemma rebuild_nonzeros_row:
  "foldl add_entry (replicate (length r) 0) (nonzeros_row r) = r"
  using rebuild_row[of "[]" r "[]"] by (simp add: nonzeros_row_def)

lemma cumsum_nth: "i \<le> length cs \<Longrightarrow> cumsum a cs ! i = a + sum_list (take i cs)"
proof (induction cs arbitrary: a i)
  case Nil
  then show ?case by simp
next
  case (Cons c cs)
  then show ?case by (cases i) (simp_all add: add.assoc)
qed

lemma nth_slice:
  assumes "length a = n"
  shows "map (\<lambda>k. (a @ b @ c) ! k) [n..<n + length b] = b"
  using assms by (intro nth_equalityI) (simp_all add: nth_append)

lemma concat_split_nth:
  assumes "i < length xss"
  shows "concat xss = concat (take i xss) @ xss ! i @ concat (drop (Suc i) xss)"
proof -
  have "concat xss = concat (take i xss @ xss ! i # drop (Suc i) xss)"
    using id_take_nth_drop[OF assms] by simp
  then show ?thesis by simp
qed

lemma todense_row_csr_matrix:
  assumes i: "i < length (rows m)" and w: "length (rows m ! i) = ncols m"
  shows "todense_row (csr_matrix m) i = rows m ! i"
proof -
  define ents where "ents = map nonzeros_row (rows m)"
  define all where "all = concat ents"
  define a where "a = length (concat (take i ents))"
  have len: "length ents = length (rows m)" by (simp add: ents_def)
  have ind: "indices (csr_matrix m) = map fst all" and dat: "csr_data (csr_matrix m) = map snd all"
    by (simp_all add: csr_matrix_def all_def ents_def map_concat comp_def)
  have ptr: "indptr (csr_matrix m) = cumsum 0 (map length ents)"
    by (simp add: csr_matrix_def ents_def comp_def)
  have lo: "indptr (csr_matrix m) ! i = a"
    using i len by (simp add: ptr cumsum_nth a_def length_concat take_map)
  have hi: "indptr (csr_matrix m) ! (i + 1) = a + length (ents ! i)"
    using i len by (simp add: ptr cumsum_nth a_def length_concat take_map take_Suc_conv_app_nth)
  have split: "all = concat (take i ents) @ ents ! i @ concat (drop (Suc i) ents)"
    unfolding all_def using i len by (intro concat_split_nth) simp
  have sl: "map (\<lambda>k. all ! k) [a..<a + length (ents ! i)] = ents ! i"
    by (subst split, rule nth_slice) (simp add: a_def)
  have inb: "\<And>k. k \<in> set [a..<a + length (ents ! i)] \<Longrightarrow> k < length all"
    by (subst split) (simp add: a_def)
  have "todense_row (csr_matrix m) i
      = foldl add_entry (replicate (ncols m) 0) (map (\<lambda>k. all ! k) [a..<a + length (ents ! i)])"
    unfolding todense_row_def lo hi foldl_map
  proof (rule foldl_cong)
    show "replicate (csr_ncols (csr_matrix m)) 0 = replicate (ncols m) (0::real)"
      by (simp add: csr_matrix_def)
  qed (use inb in \<open>simp_all add: add_entry_def ind dat\<close>)
  also have "\<dots> = foldl add_entry (replicate (length (rows m ! i)) 0) (nonzeros_row (rows m ! i))"
    unfolding sl using i w by (simp add: ents_def)
  also have "\<dots> = rows m ! i" by (rule rebuild_nonzeros_row)
  finally show ?thesis .
qed

lemma todense_csr_matrix:
  assumes "wf_matrix m"
  shows "todense (csr_matrix m) = m"
proof -
  have "map (todense_row (csr_matrix m)) [0..<length (rows m)] = map (\<lambda>i. rows m ! i) [0..<length (rows m)]"
    using assms by (intro map_cong refl todense_row_csr_matrix) (simp_all add: wf_matrix_def list_all_length)
  then have "map (todense_row (csr_matrix m)) [0..<length (rows m)] = rows m" by (simp add: map_nth)
  then show ?thesis by (simp add: todense_def csr_matrix_def nrows_def)
qed

lemma update_fresh: "k \<notin> fst ` set acc \<Longrightarrow> AList.update k x acc = acc @ [(k, x)]"
  by (induction acc) auto

lemma update_mid:
  "k \<notin> fst ` set pre \<Longrightarrow> AList.update k x (pre @ (k, v) # post) = pre @ (k, x) # post"
  by (induction pre) auto


lemma build_each_fresh:
  assumes "distinct (map fst d)" "fst ` set d \<inter> fst ` set acc = {}"
    and "\<And>k v. (k, v) \<in> set d \<Longrightarrow> f k v = Inr (g k v)"
  shows "build_each f d acc = Inr (acc @ map (\<lambda>(k, v). (k, g k v)) d)"
  using assms
proof (induction d arbitrary: acc)
  case Nil
  then show ?case by simp
next
  case (Cons p d)
  obtain k v where p: "p = (k, v)" by (cases p)
  have fr: "k \<notin> fst ` set acc" using Cons.prems(2) p by auto
  have f: "f k v = Inr (g k v)" using Cons.prems(3) p by simp
  have "build_each f d (acc @ [(k, g k v)]) = Inr ((acc @ [(k, g k v)]) @ map (\<lambda>(k, v). (k, g k v)) d)"
  proof (rule Cons.IH)
    show "distinct (map fst d)" using Cons.prems(1) by simp
    show "fst ` set d \<inter> fst ` set (acc @ [(k, g k v)]) = {}"
      using Cons.prems(1,2) p by (auto simp: image_iff)
    show "\<And>k v. (k, v) \<in> set d \<Longrightarrow> f k v = Inr (g k v)" using Cons.prems(3) by simp
  qed
  then show ?case by (simp add: p f update_fresh[OF fr])
qed


lemma assign_each_step:
  assumes "k \<notin> fst ` set pre"
  shows "assign_each f (k # ks) (pre @ (k, v) # rest)
       = (case f k v of Inl e \<Rightarrow> Inl e | Inr x \<Rightarrow> assign_each f ks (pre @ (k, x) # rest))"
proof -
  have "map_of pre k = None" using assms by (simp add: map_of_eq_None_iff)
  then have look: "map_of (pre @ (k, v) # rest) k = Some v"
    by (simp add: map_of_append map_add_def)
  show ?thesis
    by (simp add: look update_mid[OF assms] del: map_of_append cong: sum.case_cong)
qed


lemma assign_each_map:
  assumes "distinct (map fst (pre @ rest))"
    and "\<And>k v. (k, v) \<in> set rest \<Longrightarrow> f k v = Inr (g k v)"
  shows "assign_each f (map fst rest) (pre @ rest) = Inr (pre @ map (\<lambda>(k, v). (k, g k v)) rest)"
  using assms
proof (induction rest arbitrary: pre)
  case Nil
  then show ?case by simp
next
  case (Cons p rest)
  obtain k v where p: "p = (k, v)" by (cases p)
  have fr: "k \<notin> fst ` set pre" using Cons.prems(1) p by auto
  have f: "f k v = Inr (g k v)" using Cons.prems(2) p by simp
  have "assign_each f (map fst rest) ((pre @ [(k, g k v)]) @ rest)
      = Inr ((pre @ [(k, g k v)]) @ map (\<lambda>(k, v). (k, g k v)) rest)"
  proof (rule Cons.IH)
    show "distinct (map fst ((pre @ [(k, g k v)]) @ rest))" using Cons.prems(1) p by auto
    show "\<And>k v. (k, v) \<in> set rest \<Longrightarrow> f k v = Inr (g k v)" using Cons.prems(2) by simp
  qed
  then show ?case unfolding p by (simp add: assign_each_step[OF fr] f del: assign_each.simps)
qed


lemma load_save_converter: "storable v \<Longrightarrow> load_converter (save_converter v) = v"
  by (cases v) (simp_all add: storable_def load_converter_def save_converter_def todense_csr_matrix)

lemma save_group:
  assumes "distinct (map fst kvs)"
  shows "build_each (\<lambda>key2 x. Inr (save_converter x)) kvs [] = Inr (map (\<lambda>(key2, x). (key2, save_converter x)) kvs)"
  using build_each_fresh[of kvs "[]" "\<lambda>key2 x. Inr (save_converter x)" "\<lambda>key2 x. save_converter x"] assms
  by simp

lemma load_group:
  assumes "distinct (map fst kvs)"
  shows "assign_each (\<lambda>key2 x. Inr (load_converter x)) (map fst kvs) kvs
       = Inr (map (\<lambda>(key2, x). (key2, load_converter x)) kvs)"
  using assign_each_map[of "[]" kvs "\<lambda>key2 x. Inr (load_converter x)" "\<lambda>key2 x. load_converter x"] assms
  by simp

lemma save_entry_group:
  assumes "substring_in ''set'' key" "distinct (map fst kvs)"
  shows "save_entry key (Dict kvs) = Inr (Dict (map (\<lambda>(key2, x). (key2, save_converter x)) kvs))"
  using assms by (simp add: save_entry_def save_group)

lemma load_entry_group:
  assumes "substring_in ''set'' key" "distinct (map fst kvs)"
  shows "load_entry key (Dict kvs) = Inr (Dict (map (\<lambda>(key2, x). (key2, load_converter x)) kvs))"
  using assms by (simp add: load_entry_def load_group)

lemma save_entry_stored:
  assumes "if substring_in ''set'' key then group_ok v else storable v"
  shows "save_entry key v = Inr (stored_form key v)"
proof (cases "substring_in ''set'' key")
  case True
  with assms obtain kvs where "v = Dict kvs" "distinct (map fst kvs)"
    by (auto simp: group_ok_def split: pyval.splits)
  with True show ?thesis by (simp add: save_entry_group stored_form_def)
next
  case False
  then show ?thesis by (simp add: save_entry_def stored_form_def)
qed

lemma load_entry_stored:
  assumes "if substring_in ''set'' key then group_ok v else storable v"
  shows "load_entry key (stored_form key v) = Inr v"
proof (cases "substring_in ''set'' key")
  case True
  with assms obtain kvs where v: "v = Dict kvs" "distinct (map fst kvs)"
    "list_all (\<lambda>(key2, x). storable x) kvs"
    by (auto simp: group_ok_def split: pyval.splits)
  have d: "distinct (map fst (map (\<lambda>(key2, x). (key2, save_converter x)) kvs))"
    using v(2) by (simp add: comp_def case_prod_unfold)
  have "map ((\<lambda>(key2, x). (key2, load_converter x)) \<circ> (\<lambda>(key2, x). (key2, save_converter x))) kvs = kvs"
    using v(3) by (induction kvs) (auto simp: load_save_converter)
  with True v d show ?thesis by (simp add: stored_form_def load_entry_group)
next
  case False
  with assms show ?thesis by (simp add: load_entry_def stored_form_def load_save_converter)
qed

text \<open>
  Claim C1, as amended. For every bundle whose keys are distinct, whose entries are not
  already sparse, and in which every key containing \<open>set\<close> holds a group, saving
  succeeds and loading the saved file returns the bundle itself: each dense 2-D array
  comes back equal element by element, whether it sits under a key without \<open>set\<close> or
  inside a group, and 1-D vectors and all other values pass through unchanged.
\<close>

theorem sparse_round_trip:
  assumes "well_keyed d"
  shows "\<exists>fs'. saveAsSparseData d path fs = Inr fs' \<and> loadFromSparseData path fs' = Inr d"
proof -
  define s where "s = map (\<lambda>(key, v). (key, stored_form key v)) d"
  from assms have dist: "distinct (map fst d)"
    and ok: "\<And>key v. (key, v) \<in> set d \<Longrightarrow> if substring_in ''set'' key then group_ok v else storable v"
    by (auto simp: well_keyed_def list_all_iff)
  have "build_each save_entry d [] = Inr ([] @ s)"
    unfolding s_def by (rule build_each_fresh[OF dist]) (simp_all add: save_entry_stored ok)
  then have save: "saveAsSparseData d path fs = Inr (fs(path \<mapsto> Pickle s))"
    by (simp add: saveAsSparseData_def)
  have ds: "distinct (map fst ([] @ s))" using dist by (simp add: s_def comp_def case_prod_unfold)
  have "assign_each load_entry (map fst s) ([] @ s)
      = Inr ([] @ map (\<lambda>(key, x). (key, projr (load_entry key x))) s)"
  proof (rule assign_each_map[OF ds])
    fix key x assume "(key, x) \<in> set s"
    then obtain v where "(key, v) \<in> set d" "x = stored_form key v" by (auto simp: s_def)
    then show "load_entry key x = Inr (projr (load_entry key x))"
      using load_entry_stored[OF ok] by simp
  qed
  moreover have "map (\<lambda>(key, x). (key, projr (load_entry key x))) s = d"
  proof -
    have "\<And>p. p \<in> set d \<Longrightarrow>
        ((\<lambda>(key, x). (key, projr (load_entry key x))) \<circ> (\<lambda>(key, v). (key, stored_form key v))) p = p"
      using load_entry_stored[OF ok] by auto
    then show ?thesis unfolding s_def by (simp add: map_idI)
  qed
  ultimately have "loadFromSparseData path (fs(path \<mapsto> Pickle s)) = Inr d"
    by (simp add: loadFromSparseData_def)
  with save show ?thesis by blast
qed






lemma example_bundle_well_keyed: "well_keyed example_bundle"
  by (simp add: well_keyed_def example_bundle_def example_group_def example_array_def
      group_ok_def storable_def wf_matrix_def)

text \<open>The hypothesis of C1 holds for the example bundle, which round-trips.\<close>

theorem sparse_round_trip_witness:
  "well_keyed example_bundle
   \<and> (case saveAsSparseData example_bundle ''cache'' Map.empty of
        Inl e \<Rightarrow> False
      | Inr fs' \<Rightarrow> loadFromSparseData ''cache'' fs' = Inr example_bundle)"
  using sparse_round_trip[OF example_bundle_well_keyed, of "''cache''" Map.empty]
    example_bundle_well_keyed by auto

text \<open>
  C1 as stated fails: the spec's array under the key \<open>dataset\<close>, which contains
  \<open>set\<close>, cannot be saved at all.
\<close>

theorem sparse_round_trip_counterexample:
  "saveAsSparseData [(''dataset'', Ndarray2 \<lparr>ncols = 2, rows = [[0, 1], [2, 0], [0, 0]]\<rparr>)]
     ''cache'' Map.empty = Inl NotAMapping"
  by (simp add: saveAsSparseData_def save_entry_def)


section \<open>Properties of the dataset entity\<close>

lemmas load_eval = load_def path_eval isfile_def saveAsSparseData_def save_entry_def save_converter_def
  getitem_def update_def shape2_def shape0_def nrows_def Let_def

text \<open>
  C2 as stated fails: with a corrupt cache file and a working raw loader, \<open>load\<close>
  raises the decoding error instead of recomputing, while without the file it succeeds.
\<close>

theorem corrupt_cache_counterexample:
  "load (\<lambda>x. ''0.9'') (\<lambda>t. Inr consistent_bundle) empty_mnist
       [''data/mnist/preprocessed/mnist.sparse.pkl.gz'' \<mapsto> Undecodable] = Inl CacheCorrupt
   \<and> load (\<lambda>x. ''0.9'') (\<lambda>t. Inr consistent_bundle) empty_mnist Map.empty \<noteq> Inl CacheCorrupt"
  by (simp add: load_eval loadFromSparseData_def empty_mnist_def consistent_bundle_def)

text \<open>
  Claim C7 at its failing input: the loader returns two examples and three labels, and
  \<open>load\<close> succeeds, keeping all three labels beside two examples.
\<close>

theorem load_accepts_label_mismatch:
  "(case load (\<lambda>x. ''0.9'') (\<lambda>t. Inr mislabelled_bundle) empty_mnist Map.empty of
      Inl e \<Rightarrow> False
    | Inr (ds, fs') \<Rightarrow>
        labels ds = Ndarray1 (IntVec [7, 3, 5]) \<and> number_of_examples ds = Some 2
        \<and> fs' ''data/mnist/preprocessed/mnist.sparse.pkl.gz'' \<noteq> None)"
  by (simp add: load_eval empty_mnist_def mislabelled_bundle_def)

lemma update_checks_names:
  assumes "shape2 vals = Inr (M, N)" "vals \<noteq> NoneV"
    and "(ex_names \<noteq> NoneV \<and> shape0 ex_names = Inr M' \<and> M' \<noteq> M)
       \<or> ((ex_names = NoneV \<or> shape0 ex_names = Inr M)
           \<and> feat_names \<noteq> NoneV \<and> shape0 feat_names = Inr N' \<and> N' \<noteq> N)"
  shows "update self vals pv labs ex_names feat_names = Inl AssertionError"
  using assms by (auto simp: update_def Let_def)

section \<open>Properties of the splitter\<close>





section \<open>Properties of the weight engine\<close>

declare gini_loop.simps [simp del]

lemma column_batch:
  assumes "\<forall>r\<in>set R. length r = N" "i + j < N" "j < batch_size"
  shows "column (map (\<lambda>r. take batch_size (drop i r)) R) j = column R (i + j)"
  using assms by (auto simp: column_def)

lemma gini_loop_result:
  "0 < batch_size \<Longrightarrow> \<forall>r\<in>set R. length r = N \<Longrightarrow> length g = N \<Longrightarrow>
    gini_loop iv R M N batch_size i g = take i g @ map (\<lambda>j. batch_column iv M (column R j)) [i..<N]"
proof (induction iv R M N batch_size i g rule: gini_loop.induct)
  case (1 iv R M N batch_size i g)
  let ?spec = "\<lambda>j. batch_column iv M (column R j)"
  show ?case
  proof (cases "N \<le> i")
    case True
    with "1.prems" show ?thesis by (simp add: gini_loop.simps[of iv R M N batch_size i g])
  next
    case False
    define batch where "batch = map (\<lambda>r. take batch_size (drop i r)) R"
    define width where "width = min batch_size (N - i)"
    define vals where "vals = map (\<lambda>j. batch_column iv M (column batch j)) [0..<width]"
    define g' where "g' = assign_slice g i vals"
    have run: "gini_loop iv R M N batch_size i g = gini_loop iv R M N batch_size (i + batch_size) g'"
      using False "1.prems"
      by (subst gini_loop.simps) (simp add: Let_def batch_def width_def vals_def g'_def)
    have "vals = map (\<lambda>j. ?spec (i + j)) [0..<width]"
      unfolding vals_def batch_def
    proof (rule map_cong[OF refl])
      fix j assume "j \<in> set [0..<width]"
      then have "i + j < N" "j < batch_size" using False by (auto simp: width_def)
      from column_batch[OF "1.prems"(2) this]
      show "batch_column iv M (column (map (\<lambda>r. take batch_size (drop i r)) R) j) = ?spec (i + j)"
        by simp
    qed
    also have "\<dots> = map ?spec [i..<i + width]"
      by (intro nth_equalityI) simp_all
    finally have vals: "vals = map ?spec [i..<i + width]" .
    have lv: "length vals = width" by (simp add: vals_def)
    have lg': "length g' = N"
      using "1.prems"(3) False by (simp add: g'_def assign_slice_def lv width_def)
    have ih: "gini_loop iv R M N batch_size (i + batch_size) g'
        = take (i + batch_size) g' @ map ?spec [i + batch_size..<N]"
      using "1.IH"[OF _ batch_def width_def vals_def] False "1.prems" lg'
      by (simp add: g'_def vals_def batch_def width_def)
    have "take (i + batch_size) g' @ map ?spec [i + batch_size..<N] = take i g @ map ?spec [i..<N]"
    proof (cases "batch_size \<le> N - i")
      case True
      then have w: "width = batch_size" by (simp add: width_def)
      have "take (i + batch_size) g' = take i g @ vals"
        using "1.prems"(3) False True by (simp add: g'_def assign_slice_def lv w)
      moreover have "[i..<N] = [i..<i + batch_size] @ [i + batch_size..<N]"
      proof -
        have e: "(i + batch_size) + (N - (i + batch_size)) = N" using True False by simp
        have "[i..<(i + batch_size) + (N - (i + batch_size))]
            = [i..<i + batch_size] @ [i + batch_size..<(i + batch_size) + (N - (i + batch_size))]"
          by (rule upt_add_eq_append) simp
        then show ?thesis unfolding e .
      qed
      ultimately show ?thesis by (simp add: vals w)
    next
      case F: False
      then have w: "width = N - i" "i + width = N" using False by (simp_all add: width_def)
      have "take (i + batch_size) g' = take i g @ vals"
        using "1.prems"(3) False F by (simp add: g'_def assign_slice_def lv w)
      with F vals[unfolded w(2)] show ?thesis by simp
    qed
    with run ih show ?thesis by simp
  qed
qed





section \<open>Properties of the preprocessing pipeline\<close>

text \<open>
  Claim C5 at its failing input: for the methods \<open>gini\<close> then \<open>binarise\<close> the claim
  has the Gini weights applied and the result binarised; the code calls the weighting
  stage with the method \<open>binarise\<close>, for which no weights exist, and raises.
\<close>

theorem preprocessValues_late_binding:
  "preprocessValues \<lparr>ncols = 2, rows = [[1, 0], [1, 2]]\<rparr> [''gini'', ''binarise''] None Map.empty
     = Inl UnboundLocalError
   \<and> (\<exists>r. pipeline_spec None [''gini'', ''binarise''] \<lparr>ncols = 2, rows = [[1, 0], [1, 2]]\<rparr> Map.empty
          = Inr r)"
proof
  show "preprocessValues \<lparr>ncols = 2, rows = [[1, 0], [1, 2]]\<rparr> [''gini'', ''binarise''] None Map.empty
     = Inl UnboundLocalError"
    by (simp add: preprocessValues_def preprocess_of_def applyWeights_def loadWeights_def)
  have g: "\<exists>ws. computeGiniIndices \<lparr>ncols = 2, rows = [[1, 0], [1, 2]]\<rparr> (1 / 10 ^ 16) 5000
      = Inr ws \<and> length ws = 2 \<and> None \<notin> set ws"
  proof -
    let ?R = "[[1, 1 / 10 ^ 16], [1, 2::real]]"
    have nr: "nrows \<lparr>ncols = 2, rows = [[1, 0], [1, 2::real]]\<rparr> = 2" by (simp add: nrows_def)
    have R: "map (map (\<lambda>x. numpy_clip x (1 / 10 ^ 16) x)) (rows \<lparr>ncols = 2, rows = [[1, 0], [1, 2::real]]\<rparr>) = ?R"
      by (simp add: numpy_clip_def)
    have "gini_loop (index_vector_of 2) ?R 2 2 5000 0 (replicate 2 (Some 0))
        = take 0 (replicate 2 (Some 0))
          @ map (\<lambda>j. batch_column (index_vector_of 2) 2 (column ?R j)) [0..<2]"
      by (rule gini_loop_result) simp_all
    moreover have "\<exists>a b. map (\<lambda>j. batch_column (index_vector_of 2) 2 (column ?R j)) [0..<2]
        = [Some a, Some b]"
    proof -
      have fin: "\<exists>a. batch_column iv 2 col = Some a" if "sum_list col \<noteq> 0" for iv col
        using that unfolding batch_column_def Let_def by (simp only: if_False simp_thms numeral_neq_zero) blast
      have u: "[0..<2] = [0, Suc 0]" by (simp add: upt_conv_Cons)
      have "sum_list (column ?R 0) \<noteq> 0" "sum_list (column ?R (Suc 0)) \<noteq> 0"
        by (simp_all add: column_def)
      from fin[OF this(1), of "index_vector_of 2"] fin[OF this(2), of "index_vector_of 2"]
      show ?thesis unfolding u by auto
    qed
    ultimately obtain a b where "gini_loop (index_vector_of 2) ?R 2 2 5000 0 (replicate 2 (Some 0))
        = [Some a, Some b]" by auto
    then show ?thesis
      unfolding computeGiniIndices_def Let_def nr R by simp
  qed
  then obtain ws where ws: "computeGiniIndices \<lparr>ncols = 2, rows = [[1, 0], [1, 2]]\<rparr> (1 / 10 ^ 16) 5000
      = Inr ws" "length ws = 2" "None \<notin> set ws" by blast
  then show "\<exists>r. pipeline_spec None [''gini'', ''binarise''] \<lparr>ncols = 2, rows = [[1, 0], [1, 2]]\<rparr> Map.empty
          = Inr r"
    by (simp add: applyWeights_def loadWeights_def getitem_def multiply_weights_def Let_def)
qed

lemma weighting_uses_last_method:
  "preprocessValues vals [''gini'', ''idf''] preprocessPath fs
     = preprocessValues vals [''idf'', ''idf''] preprocessPath fs"
  by (simp add: preprocessValues_def preprocess_of_def)

lemma single_method_as_specified:
  "preprocessValues vals [method] preprocessPath fs = pipeline_spec preprocessPath [method] vals fs"
  by (auto simp: preprocessValues_def preprocess_of_def split: sum.splits)

section \<open>Properties of the bag-of-words builder\<close>

lemma word_index_distinct:
  assumes "distinct names"
  shows "j < length names \<Longrightarrow> word_index names (names ! j) = Some j"
    and "word_index names w = Some j \<Longrightarrow> j < length names \<and> names ! j = w"
    and "w \<notin> set names \<Longrightarrow> word_index names w = None"
proof -
  have d: "distinct (map fst (rev (zip names [0..<length names])))"
    using assms by (simp add: rev_map[symmetric])
  show "word_index names (names ! j) = Some j" if "j < length names"
  proof -
    have "(names ! j, j) \<in> set (rev (zip names [0..<length names]))"
      using that by (auto simp: set_zip)
    with d show ?thesis unfolding word_index_def by (rule map_of_is_SomeI)
  qed
  show "j < length names \<and> names ! j = w" if "word_index names w = Some j"
  proof -
    from that have "(w, j) \<in> set (rev (zip names [0..<length names]))"
      unfolding word_index_def by (rule map_of_SomeD)
    then show ?thesis by (auto simp: set_zip)
  qed
  show "word_index names w = None" if "w \<notin> set names"
    using that unfolding word_index_def by (auto simp: map_of_eq_None_iff dest: set_zip_leftD)
qed

lemma fill_row_counts:
  assumes "distinct names"
  shows "set ws \<subseteq> set names \<Longrightarrow> length row = length names \<Longrightarrow>
    fill_row (word_index names) row ws
      = Inr (map (\<lambda>j. row ! j + real (count_list ws (names ! j))) [0..<length names])"
proof (induction ws arbitrary: row)
  case Nil
  then show ?case using map_nth[of row] by simp
next
  case (Cons w ws)
  from Cons.prems(1) obtain j where j: "j < length names" "names ! j = w"
    by (auto simp: in_set_conv_nth)
  with word_index_distinct(1)[OF assms] have ix: "word_index names w = Some j" by blast
  have "fill_row (word_index names) (row[j := row ! j + 1]) ws
      = Inr (map (\<lambda>k. (row[j := row ! j + 1]) ! k + real (count_list ws (names ! k))) [0..<length names])"
    using Cons.prems by (intro Cons.IH) simp_all
  moreover have "map (\<lambda>k. (row[j := row ! j + 1]) ! k + real (count_list ws (names ! k))) [0..<length names]
      = map (\<lambda>k. row ! k + real (count_list (w # ws) (names ! k))) [0..<length names]"
  proof (rule map_cong[OF refl])
    fix k assume "k \<in> set [0..<length names]"
    then have k: "k < length names" by simp
    show "(row[j := row ! j + 1]) ! k + real (count_list ws (names ! k))
        = row ! k + real (count_list (w # ws) (names ! k))"
    proof (cases "k = j")
      case True
      with j Cons.prems(2) show ?thesis by simp
    next
      case False
      with j k assms have "names ! k \<noteq> w" by (auto simp: nth_eq_iff_index_eq)
      with False show ?thesis by simp
    qed
  qed
  ultimately show ?case by (simp add: ix)
qed

lemma fill_rows_counts:
  assumes "distinct names"
  shows "\<forall>ws\<in>set wss. set ws \<subseteq> set names \<Longrightarrow>
    fill_rows (word_index names) (length names) wss
      = Inr (map (\<lambda>ws. map (\<lambda>w. real (count_list ws w)) names) wss)"
proof (induction wss)
  case Nil
  then show ?case by simp
next
  case (Cons ws wss)
  have "fill_row (word_index names) (replicate (length names) 0) ws
      = Inr (map (\<lambda>j. replicate (length names) 0 ! j + real (count_list ws (names ! j))) [0..<length names])"
    using Cons.prems by (intro fill_row_counts[OF assms]) simp_all
  also have "map (\<lambda>j. replicate (length names) 0 ! j + real (count_list ws (names ! j))) [0..<length names]
      = map (\<lambda>w. real (count_list ws w)) names"
    by (intro nth_equalityI) simp_all
  finally show ?case using Cons by simp
qed

text \<open>
  Claim C8, as amended. The vocabulary order is the listing that the interpreter's set
  gives, not a function of the corpus alone. Given that listing (each collected stem
  once), the outputs are determined by the corpus: \<open>featureNames\<close> is the listing,
  a stem's column index is its position in it, and entry \<open>(i, j)\<close> of the count
  matrix is the number of occurrences of stem \<open>j\<close> in document \<open>i\<close>.
\<close>

theorem bag_of_words_by_listing:
  assumes "lists_the_set set_order (concat (map (findWords stem) documents))"
  shows "createBagOfWords stem set_order documents
       = Inr (\<lparr>ncols = length (set_order (concat (map (findWords stem) documents))),
               rows = map (\<lambda>d. map (\<lambda>w. real (count_list (findWords stem d) w))
                                   (set_order (concat (map (findWords stem) documents))))
                          documents\<rparr>,
              set_order (concat (map (findWords stem) documents)))"
proof -
  let ?names = "set_order (concat (map (findWords stem) documents))"
  from assms have d: "distinct ?names" and s: "set ?names = set (concat (map (findWords stem) documents))"
    by (simp_all add: lists_the_set_def)
  have "\<forall>ws\<in>set (map (findWords stem) documents). set ws \<subseteq> set ?names"
    unfolding s by auto
  from fill_rows_counts[OF d this] show ?thesis
    by (simp add: createBagOfWords_def Let_def comp_def)
qed

lemmas findWords_eval = findWords_def lower_def lower_char_def is_token_char_def is_word_char_def
  is_digit_def is_number_tail_def Let_def

lemma findWords_cat_dog: "findWords (\<lambda>w. w) ''cat dog'' = [''cat'', ''dog'']"
  by (simp add: findWords_eval)

lemma findWords_dog_bird: "findWords (\<lambda>w. w) ''dog bird'' = [''dog'', ''bird'']"
  by (simp add: findWords_eval)

text \<open>
  C8 on the corpus \<open>cat dog\<close>, \<open>dog bird\<close> with the identity as stemmer and the
  order of first insertion as listing.
\<close>

theorem bag_of_words_by_listing_witness:
  "lists_the_set remdups (concat (map (findWords (\<lambda>w. w)) [''cat dog'', ''dog bird'']))
   \<and> createBagOfWords (\<lambda>w. w) remdups [''cat dog'', ''dog bird'']
       = Inr (\<lparr>ncols = 3, rows = [[1, 1, 0], [0, 1, 1]]\<rparr>, [''cat'', ''dog'', ''bird''])"
proof -
  have l: "lists_the_set remdups (concat (map (findWords (\<lambda>w. w)) [''cat dog'', ''dog bird'']))"
    by (simp add: lists_the_set_def)
  from bag_of_words_by_listing[OF l] l show ?thesis
    by (simp add: findWords_cat_dog findWords_dog_bird)
qed

text \<open>
  C8 as stated fails: two listings of the same set of stems, as two runs with different
  string hashes may give, assign different columns for the same corpus.
\<close>

theorem bag_of_words_order_counterexample:
  "lists_the_set remdups (concat (map (findWords (\<lambda>w. w)) [''cat dog'', ''dog bird'']))
   \<and> lists_the_set (\<lambda>ws. rev (remdups ws)) (concat (map (findWords (\<lambda>w. w)) [''cat dog'', ''dog bird'']))
   \<and> createBagOfWords (\<lambda>w. w) remdups [''cat dog'', ''dog bird'']
       = Inr (\<lparr>ncols = 3, rows = [[1, 1, 0], [0, 1, 1]]\<rparr>, [''cat'', ''dog'', ''bird''])
   \<and> createBagOfWords (\<lambda>w. w) (\<lambda>ws. rev (remdups ws)) [''cat dog'', ''dog bird'']
       = Inr (\<lparr>ncols = 3, rows = [[0, 1, 1], [1, 1, 0]]\<rparr>, [''bird'', ''dog'', ''cat''])"
proof -
  have l: "lists_the_set remdups ws" "lists_the_set (\<lambda>ws. rev (remdups ws)) ws" for ws
    by (simp_all add: lists_the_set_def)
  have "createBagOfWords (\<lambda>w. w) remdups [''cat dog'', ''dog bird'']
       = Inr (\<lparr>ncols = 3, rows = [[1, 1, 0], [0, 1, 1]]\<rparr>, [''cat'', ''dog'', ''bird''])"
    by (simp add: createBagOfWords_def word_index_def findWords_cat_dog findWords_dog_bird upt_conv_Cons)
  moreover have "createBagOfWords (\<lambda>w. w) (\<lambda>ws. rev (remdups ws)) [''cat dog'', ''dog bird'']
       = Inr (\<lparr>ncols = 3, rows = [[0, 1, 1], [1, 1, 0]]\<rparr>, [''bird'', ''dog'', ''cat''])"
    by (simp add: createBagOfWords_def word_index_def findWords_cat_dog findWords_dog_bird upt_conv_Cons)
  ultimately show ?thesis using l by blast
qed

section \<open>Properties of the cache use of the dataset entity\<close>

text \<open>
  Claim C2, as amended. When the cache path holds content that cannot be decoded,
  \<open>loadFromSparseData\<close> fails with the decoding error, and each caller fails with it
  too, computing and writing nothing: \<open>load\<close> at the base path, \<open>preprocess\<close>
  (when a preprocessing method or a feature selection is configured) at the path of its
  configuration, and \<open>split\<close> at the path of the resolved method and the fraction.
  Only a missing file is a cache miss: for \<open>load\<close>, the raw loader's result is then
  saved at the path, and the file system returned is the one the save produced.
\<close>

theorem corrupt_cache_propagates:
  fixes str :: "real \<Rightarrow> string" and self :: DataSet and fraction :: real
  defines "load_path \<equiv> path_function str self no_args"
  defines "preprocess_path \<equiv> path_function str self
             (no_args\<lparr>preprocessing_methods := Some (ds_preprocessing_methods self),
                      feature_selection := ds_feature_selection self\<rparr>)"
  defines "split_path \<equiv> \<lambda>method. path_function str self
             \<lparr>base_name = None, preprocessing_methods = Some (ds_preprocessing_methods self),
              feature_selection = ds_feature_selection self,
              splitting_method = Some method, splitting_fraction = Some fraction\<rparr>"
  shows "(fs load_path = Some Undecodable \<longrightarrow>
            loadFromSparseData load_path fs = Inl CacheCorrupt
            \<and> load str raw_loader self fs = Inl CacheCorrupt)
       \<and> ((ds_preprocessing_methods self \<noteq> [] \<or> truthy_str (ds_feature_selection self))
            \<and> fs preprocess_path = Some Undecodable \<longrightarrow>
            preprocess str self fs = Inl CacheCorrupt)
       \<and> (split_method \<noteq> ''default'' \<and> fs (split_path split_method) = Some Undecodable \<longrightarrow>
            split str raw_loader permutation self split_method fraction fs = Inl CacheCorrupt)
       \<and> (truthy_val (split_indices self) = Inr b
            \<and> fs (split_path (if b then ''indices'' else ''random'')) = Some Undecodable \<longrightarrow>
            split str raw_loader permutation self ''default'' fraction fs = Inl CacheCorrupt)
       \<and> (fs load_path = None \<and> raw_loader (title self) = Inr d \<longrightarrow>
            (case saveAsSparseData d load_path fs of
               Inl e \<Rightarrow> load str raw_loader self fs = Inl e
             | Inr fs' \<Rightarrow>
                 fs' load_path \<noteq> None
                 \<and> (case load str raw_loader self fs of Inl e \<Rightarrow> True | Inr (ds, fs'') \<Rightarrow> fs'' = fs')))"
proof (intro conjI impI)
  assume "fs load_path = Some Undecodable"
  then show "loadFromSparseData load_path fs = Inl CacheCorrupt"
    by (simp add: loadFromSparseData_def)
next
  assume "fs load_path = Some Undecodable"
  then show "load str raw_loader self fs = Inl CacheCorrupt"
    unfolding load_def load_path_def path_function_def
    by (simp add: loadFromSparseData_def isfile_def)
next
  assume "(ds_preprocessing_methods self \<noteq> [] \<or> truthy_str (ds_feature_selection self))
            \<and> fs preprocess_path = Some Undecodable"
  then show "preprocess str self fs = Inl CacheCorrupt"
    unfolding preprocess_def preprocess_path_def
    by (auto simp: loadFromSparseData_def isfile_def Let_def)
next
  assume "split_method \<noteq> ''default'' \<and> fs (split_path split_method) = Some Undecodable"
  then show "split str raw_loader permutation self split_method fraction fs = Inl CacheCorrupt"
    unfolding split_def split_path_def
    by (simp add: loadFromSparseData_def isfile_def Let_def)
next
  assume "truthy_val (split_indices self) = Inr b
            \<and> fs (split_path (if b then ''indices'' else ''random'')) = Some Undecodable"
  then show "split str raw_loader permutation self ''default'' fraction fs = Inl CacheCorrupt"
    unfolding split_def split_path_def
    by (simp add: loadFromSparseData_def isfile_def Let_def)
next
  assume h: "fs load_path = None \<and> raw_loader (title self) = Inr d"
  show "case saveAsSparseData d load_path fs of
               Inl e \<Rightarrow> load str raw_loader self fs = Inl e
             | Inr fs' \<Rightarrow>
                 fs' load_path \<noteq> None
                 \<and> (case load str raw_loader self fs of Inl e \<Rightarrow> True | Inr (ds, fs'') \<Rightarrow> fs'' = fs')"
  proof (cases "saveAsSparseData d load_path fs")
    case (Inl e)
    with h show ?thesis unfolding load_def load_path_def path_function_def by (simp add: isfile_def)
  next
    case (Inr fs')
    then have "fs' load_path \<noteq> None" by (auto simp: saveAsSparseData_def split: sum.splits)
    moreover have "case load str raw_loader self fs of Inl e \<Rightarrow> True | Inr (ds, fs'') \<Rightarrow> fs'' = fs'"
      using h Inr unfolding load_def load_path_def path_function_def
      by (auto simp: isfile_def Let_def split: sum.splits)
    ultimately show ?thesis using Inr by simp
  qed
qed

text \<open>
  C2 at the MNIST object: over a corrupt cache file \<open>load\<close>, \<open>preprocess\<close> and
  \<open>split\<close> fail; over an empty file system \<open>load\<close> succeeds and fills the cache.
\<close>

theorem corrupt_cache_propagates_witness:
  "load (\<lambda>x. ''0.9'') (\<lambda>t. Inr consistent_bundle) empty_mnist
       [''data/mnist/preprocessed/mnist.sparse.pkl.gz'' \<mapsto> Undecodable] = Inl CacheCorrupt
   \<and> preprocess (\<lambda>x. ''0.9'') loaded_mnist
       [''data/mnist/preprocessed/mnist-binarise.sparse.pkl.gz'' \<mapsto> Undecodable] = Inl CacheCorrupt
   \<and> split (\<lambda>x. ''0.9'') (\<lambda>t. Inr consistent_bundle) (\<lambda>M. rev [0..<M]) loaded_mnist ''random'' (9 / 10)
       [''data/mnist/preprocessed/mnist-binarise-split-random-0.9.sparse.pkl.gz'' \<mapsto> Undecodable]
       = Inl CacheCorrupt
   \<and> split (\<lambda>x. ''0.9'') (\<lambda>t. Inr consistent_bundle) (\<lambda>M. rev [0..<M]) loaded_mnist ''default'' (9 / 10)
       [''data/mnist/preprocessed/mnist-binarise-split-random-0.9.sparse.pkl.gz'' \<mapsto> Undecodable]
       = Inl CacheCorrupt
   \<and> (case load (\<lambda>x. ''0.9'') (\<lambda>t. Inr consistent_bundle) empty_mnist Map.empty of
         Inl e \<Rightarrow> False
       | Inr (ds, fs') \<Rightarrow> fs' ''data/mnist/preprocessed/mnist.sparse.pkl.gz'' \<noteq> None)"
proof -
  let ?str = "\<lambda>x::real. ''0.9''" and ?ld = "\<lambda>t::string. Inr consistent_bundle :: error + data_dictionary"
  have p1: "path_function ?str empty_mnist no_args = ''data/mnist/preprocessed/mnist.sparse.pkl.gz''"
    by (simp add: path_function_def path_eval empty_mnist_def)
  have p2: "path_function ?str loaded_mnist
        (no_args\<lparr>preprocessing_methods := Some (ds_preprocessing_methods loaded_mnist),
                 feature_selection := ds_feature_selection loaded_mnist\<rparr>)
      = ''data/mnist/preprocessed/mnist-binarise.sparse.pkl.gz''"
    by (simp add: path_function_def path_eval empty_mnist_def loaded_mnist_def)
  have p3: "path_function ?str loaded_mnist
        \<lparr>base_name = None, preprocessing_methods = Some (ds_preprocessing_methods loaded_mnist),
         feature_selection = ds_feature_selection loaded_mnist,
         splitting_method = Some ''random'', splitting_fraction = Some (9 / 10)\<rparr>
      = ''data/mnist/preprocessed/mnist-binarise-split-random-0.9.sparse.pkl.gz''"
    by (simp add: path_function_def path_eval empty_mnist_def loaded_mnist_def)
  have t: "truthy_val (split_indices loaded_mnist) = Inr False"
    by (simp add: loaded_mnist_def empty_mnist_def)
  have m: "ds_preprocessing_methods loaded_mnist \<noteq> []" by (simp add: loaded_mnist_def)
  have s: "\<exists>fs'. saveAsSparseData consistent_bundle ''data/mnist/preprocessed/mnist.sparse.pkl.gz'' Map.empty = Inr fs'"
    by (simp add: saveAsSparseData_def save_entry_def consistent_bundle_def)
  have l: "\<exists>r. load ?str ?ld empty_mnist Map.empty = Inr r"
    by (simp add: load_eval empty_mnist_def consistent_bundle_def)
  note a = corrupt_cache_propagates[where fs = "[''data/mnist/preprocessed/mnist.sparse.pkl.gz'' \<mapsto> Undecodable]" and str = "\<lambda>x::real. ''0.9''" and self = empty_mnist
      and raw_loader = "\<lambda>t::string. Inr consistent_bundle" and split_method = "''random''" and fraction = "9 / 10"
      and permutation = "\<lambda>M. rev [0..<M]" and b = False and d = consistent_bundle, unfolded p1]
  note b = corrupt_cache_propagates[where fs = "[''data/mnist/preprocessed/mnist-binarise.sparse.pkl.gz'' \<mapsto> Undecodable]" and str = "\<lambda>x::real. ''0.9''" and self = loaded_mnist
      and raw_loader = "\<lambda>t::string. Inr consistent_bundle" and split_method = "''random''" and fraction = "9 / 10"
      and permutation = "\<lambda>M. rev [0..<M]" and b = False and d = consistent_bundle, unfolded p2]
  note c = corrupt_cache_propagates[where fs = "[''data/mnist/preprocessed/mnist-binarise-split-random-0.9.sparse.pkl.gz'' \<mapsto> Undecodable]" and str = "\<lambda>x::real. ''0.9''" and self = loaded_mnist
      and raw_loader = "\<lambda>t::string. Inr consistent_bundle" and split_method = "''random''" and fraction = "9 / 10"
      and permutation = "\<lambda>M. rev [0..<M]" and b = False and d = consistent_bundle,
      unfolded if_False p3]
  note d = corrupt_cache_propagates[where fs = "Map.empty" and str = "\<lambda>x::real. ''0.9''" and self = empty_mnist
      and raw_loader = "\<lambda>t::string. Inr consistent_bundle" and split_method = "''random''" and fraction = "9 / 10"
      and permutation = "\<lambda>M. rev [0..<M]" and b = False and d = consistent_bundle, unfolded p1]
  have 1: "load ?str ?ld empty_mnist
       [''data/mnist/preprocessed/mnist.sparse.pkl.gz'' \<mapsto> Undecodable] = Inl CacheCorrupt"
    using a by simp
  have 2: "preprocess ?str loaded_mnist
       [''data/mnist/preprocessed/mnist-binarise.sparse.pkl.gz'' \<mapsto> Undecodable] = Inl CacheCorrupt"
    using b m by simp
  have 3: "split ?str ?ld (\<lambda>M. rev [0..<M]) loaded_mnist ''random'' (9 / 10)
       [''data/mnist/preprocessed/mnist-binarise-split-random-0.9.sparse.pkl.gz'' \<mapsto> Undecodable]
       = Inl CacheCorrupt"
    using c by simp
  have 4: "split ?str ?ld (\<lambda>M. rev [0..<M]) loaded_mnist ''default'' (9 / 10)
       [''data/mnist/preprocessed/mnist-binarise-split-random-0.9.sparse.pkl.gz'' \<mapsto> Undecodable]
       = Inl CacheCorrupt"
    using c t by simp
  have 5: "case load ?str ?ld empty_mnist Map.empty of
         Inl e \<Rightarrow> False
       | Inr (ds, fs') \<Rightarrow> fs' ''data/mnist/preprocessed/mnist.sparse.pkl.gz'' \<noteq> None"
    using d s l by (auto simp: empty_mnist_def split: sum.splits)
  from 1 2 3 4 5 show ?thesis by blast
qed

end
